theory Spec2Isabelle
  imports Main "HOL-Library.Multiset"
begin

section \<open>Errors\<close>

text \<open>
  Go errors are values. One datatype holds every error the modelled code creates or
  passes on. \<open>Wrapf\<close> is \<^verbatim>\<open>fmt.Errorf("...%w", err)\<close>: the only wrapper whose
  \<^verbatim>\<open>Unwrap\<close> the source relies on. \<open>InternalError\<close> is the repository package's
  \<^verbatim>\<open>&InternalError{inner: err}\<close>; \<open>GrpcInternalError\<close>, \<open>GrpcCanceledError\<close>,
  \<open>GrpcPublicError\<close> and \<open>HttpInternalError\<close> stand for the results of
  \<^verbatim>\<open>grpc.InternalError\<close>, \<^verbatim>\<open>grpc.CanceledError\<close>, \<^verbatim>\<open>grpc.PublicError\<close> and
  \<^verbatim>\<open>httperrors.InternalError\<close>.
\<close>

datatype git_code = ErrorCodeNonFastForward | ErrNotFound | ErrorCodeOther

datatype error =
    panicError
  | invalidJson
  | ErrNotExist
  | Canceled
  | DeadlineExceeded
  | ErrSyntax
  | ErrRange
  | GitError git_code
  | JsonError string
  | OtherError string
  | Wrapf string error
  | InternalError error
  | GrpcInternalError error
  | GrpcCanceledError error
  | GrpcPublicError string
  | HttpInternalError string

text \<open>\<^verbatim>\<open>errors.Is(err, target)\<close>: the error itself or anything on its \<^verbatim>\<open>%w\<close> chain.\<close>

fun errors_Is :: "error \<Rightarrow> error \<Rightarrow> bool" where
  "errors_Is (Wrapf msg inner) target = (Wrapf msg inner = target \<or> errors_Is inner target)"
| "errors_Is err target = (err = target)"

section \<open>pkg/auth\<close>

record DexAuthContext =
  Role :: string

record User =
  Email :: string
  Name :: string
  DexAuthContext :: "DexAuthContext option"

text \<open>\<^verbatim>\<open>GetUserOrDefault(u *User, defaultUser User) User\<close>; a nil pointer is \<open>None\<close>.\<close>

definition GetUserOrDefault :: "User option \<Rightarrow> User \<Rightarrow> User" where
  "GetUserOrDefault u defaultUser =
     (let userAdapted = \<lparr>Email = Email defaultUser, Name = Name defaultUser, DexAuthContext = None\<rparr>
      in case u of
           None \<Rightarrow> userAdapted
         | Some usr \<Rightarrow>
             if Email usr \<noteq> [] then
               (if Name usr = []
                then userAdapted\<lparr>Email := Email usr, Name := Email usr\<rparr>
                else userAdapted\<lparr>Email := Email usr, Name := Name usr\<rparr>)
             else userAdapted)"

section \<open>strconv.ParseUint(s, 10, 64)\<close>

definition maxUint64 :: nat where
  "maxUint64 = 2 ^ 64 - 1"

definition cutoff :: nat where
  "cutoff = maxUint64 div 10 + 1"

text \<open>
  The digit of a byte in base 10. Letters are digits of larger bases and every other
  byte is no digit at all: in base 10 both end in the syntax error.
\<close>

definition digit10 :: "char \<Rightarrow> nat option" where
  "digit10 c = (let k = (of_char c :: nat) in if 48 \<le> k \<and> k \<le> 57 then Some (k - 48) else None)"

text \<open>
  The loop over the bytes. \<open>n\<close> is a \<^verbatim>\<open>uint64\<close>: the multiplication cannot wrap
  below the cutoff, and the addition wraps modulo \<open>2 ^ 64\<close>, which the source detects by
  \<^verbatim>\<open>n1 < n\<close>.
\<close>

fun parseLoop :: "nat \<Rightarrow> string \<Rightarrow> nat \<times> error option" where
  "parseLoop n [] = (n, None)"
| "parseLoop n (c # cs) =
     (case digit10 c of
        None \<Rightarrow> (0, Some ErrSyntax)
      | Some d \<Rightarrow>
          if n \<ge> cutoff then (maxUint64, Some ErrRange)
          else let m = n * 10; n1 = (m + d) mod 2 ^ 64
               in if n1 < m \<or> n1 > maxUint64 then (maxUint64, Some ErrRange)
                  else parseLoop n1 cs)"

definition ParseUint :: "string \<Rightarrow> nat \<times> error option" where
  "ParseUint s = (if s = [] then (0, Some ErrSyntax) else parseLoop 0 s)"

section \<open>The State view\<close>

text \<open>
  \<^verbatim>\<open>billy.Filesystem\<close> is an interface; the State only calls the methods below.
  \<open>Join\<close> is the interface's own path join.
\<close>

record FileInfo =
  fi_Name :: string
  fi_IsDir :: bool

record Filesystem =
  ReadDir :: "string \<Rightarrow> error + FileInfo list"
  Readlink :: "string \<Rightarrow> error + string"
  Stat :: "string \<Rightarrow> error + FileInfo"
  Open_file :: "string \<Rightarrow> error + string"
  Join :: "string list \<Rightarrow> string"

text \<open>
  \<^verbatim>\<open>State\<close>. The commit is its id; \<open>'fs\<close> is the filesystem: the interface above for
  the accessors, the staged tree for the writer.
\<close>

record 'fs State =
  Filesystem :: 'fs
  Commit :: "nat option"
  BootstrapMode :: bool
  EnvironmentConfigsPath :: string

text \<open>The loop of \<^verbatim>\<open>Releases\<close> and \<^verbatim>\<open>GetApplicationReleases\<close> over the entry names.\<close>

fun parseNames :: "string list \<Rightarrow> nat list" where
  "parseNames [] = []"
| "parseNames (n # ns) =
     (case ParseUint n of
        (i, Some err) \<Rightarrow> parseNames ns
      | (i, None) \<Rightarrow> i # parseNames ns)"

definition Releases :: "Filesystem State \<Rightarrow> string \<Rightarrow> error + nat list" where
  "Releases s application =
     (case ReadDir (Filesystem s) (Join (Filesystem s) [''applications'', application, ''releases'']) of
        Inl err \<Rightarrow> Inl err
      | Inr entries \<Rightarrow> Inr (parseNames (map fi_Name entries)))"

definition names :: "Filesystem \<Rightarrow> string \<Rightarrow> error + string list" where
  "names fs path =
     (case ReadDir fs path of
        Inl err \<Rightarrow> Inl err
      | Inr files \<Rightarrow> Inr (map fi_Name files))"

text \<open>
  \<^verbatim>\<open>sort.Slice(result, func(i, j) bool { return result[i] < result[j] })\<close> on numbers:
  the ascending arrangement of the same values.
\<close>

definition GetApplicationReleases :: "Filesystem State \<Rightarrow> string \<Rightarrow> error + nat list" where
  "GetApplicationReleases s application =
     (case names (Filesystem s) (Join (Filesystem s) [''applications'', application, ''releases'']) of
        Inl err \<Rightarrow> Inl err
      | Inr ns \<Rightarrow> Inr (sort (parseNames ns)))"

text \<open>
  \<^verbatim>\<open>readSymlink\<close> returns \<^verbatim>\<open>(*uint64, error)\<close>; both can be non-nil at once (the last
  branch returns \<^verbatim>\<open>&res, err\<close>), so the result is a pair.
\<close>

definition readSymlink ::
  "Filesystem State \<Rightarrow> string \<Rightarrow> string \<Rightarrow> string \<Rightarrow> nat option \<times> error option" where
  "readSymlink s environment application symlinkName =
     (let version = Join (Filesystem s) [''environments'', environment, ''applications'', application, symlinkName]
      in case Readlink (Filesystem s) version of
           Inl err \<Rightarrow>
             if errors_Is err ErrNotExist then (None, None)
             else (None, Some (Wrapf (''failed reading symlink '' @ version) err))
         | Inr lnk \<Rightarrow>
             (let target = Join (Filesystem s) [''environments'', environment, ''applications'', application, lnk]
              in case Stat (Filesystem s) target of
                   Inl err \<Rightarrow> (None, Some (Wrapf (''failed stating '' @ target) err))
                 | Inr stat \<Rightarrow>
                     (case ParseUint (fi_Name stat) of (res, err) \<Rightarrow> (Some res, err))))"

text \<open>
  Modelled from the spec: the constant \<^verbatim>\<open>queueFileName\<close> is declared outside the files at
  hand; the spec's layout names the link \<^verbatim>\<open>queued_version\<close>.
\<close>

definition queueFileName :: string where
  "queueFileName = ''queued_version''"

definition GetEnvironmentApplicationVersion ::
  "Filesystem State \<Rightarrow> string \<Rightarrow> string \<Rightarrow> nat option \<times> error option" where
  "GetEnvironmentApplicationVersion s environment application =
     readSymlink s environment application ''version''"

definition GetQueuedVersion ::
  "Filesystem State \<Rightarrow> string \<Rightarrow> string \<Rightarrow> nat option \<times> error option" where
  "GetQueuedVersion s environment application =
     readSymlink s environment application queueFileName"

text \<open>
  \<^verbatim>\<open>GetEnvironmentConfigs\<close>. In bootstrap mode the configurations are one JSON file on
  the machine's own disk, read with \<^verbatim>\<open>ioutil.ReadFile\<close> (the parameter \<open>readFile\<close>);
  otherwise they are the \<^verbatim>\<open>config.json\<close> files of the tree. The JSON decoder of the
  standard library is a parameter: it fails with a message or returns the decoded value.
  Its errors are its own, \<open>JsonError\<close>: \<^verbatim>\<open>invalidJson\<close> is a variable of the repository
  package made by \<^verbatim>\<open>errors.New\<close>, which no other package returns.
  \<open>'cfg\<close> is \<^verbatim>\<open>config.EnvironmentConfig\<close> and \<open>zero\<close> its zero value.
  \<^verbatim>\<open>wrapFileError\<close> is declared outside the files at hand; \<^verbatim>\<open>errors.Is\<close> has to
  see a missing file through it, so it is a \<^verbatim>\<open>%w\<close> wrapper here.
\<close>

definition decodeJsonFile ::
  "(string \<Rightarrow> string + 'cfg) \<Rightarrow> Filesystem \<Rightarrow> string \<Rightarrow> error + 'cfg" where
  "decodeJsonFile decode fs path =
     (case Open_file fs path of
        Inl err \<Rightarrow> Inl (Wrapf (''could not decode json file '' @ path) err)
      | Inr content \<Rightarrow>
          (case decode content of
             Inl msg \<Rightarrow> Inl (JsonError msg)
           | Inr v \<Rightarrow> Inr v))"

fun configsLoop ::
  "(string \<Rightarrow> string + 'cfg) \<Rightarrow> 'cfg \<Rightarrow> Filesystem \<Rightarrow> FileInfo list \<Rightarrow> (string \<rightharpoonup> 'cfg)
   \<Rightarrow> error + (string \<rightharpoonup> 'cfg)" where
  "configsLoop decode zero fs [] result = Inr result"
| "configsLoop decode zero fs (env # envs) result =
     (let fileName = Join fs [''environments'', fi_Name env, ''config.json'']
      in case decodeJsonFile decode fs fileName of
           Inl err \<Rightarrow>
             if errors_Is err ErrNotExist
             then configsLoop decode zero fs envs (result(fi_Name env \<mapsto> zero))
             else Inl (Wrapf (fileName @ '' : '') invalidJson)
         | Inr config \<Rightarrow> configsLoop decode zero fs envs (result(fi_Name env \<mapsto> config)))"

definition GetEnvironmentConfigs ::
  "(string \<Rightarrow> error + string) \<Rightarrow> (string \<Rightarrow> string + (string \<rightharpoonup> 'cfg)) \<Rightarrow>
   (string \<Rightarrow> string + 'cfg) \<Rightarrow> 'cfg \<Rightarrow> Filesystem State \<Rightarrow> error + (string \<rightharpoonup> 'cfg)" where
  "GetEnvironmentConfigs readFile unmarshal decode zero s =
     (if BootstrapMode s then
        (case readFile (EnvironmentConfigsPath s) of
           Inl err \<Rightarrow> if errors_Is err ErrNotExist then Inr Map.empty else Inl err
         | Inr buf \<Rightarrow>
             (case unmarshal buf of
                Inl msg \<Rightarrow> Inl (JsonError msg)
              | Inr result \<Rightarrow> Inr result))
      else
        (case ReadDir (Filesystem s) ''environments'' of
           Inl err \<Rightarrow> Inl err
         | Inr envs \<Rightarrow> configsLoop decode zero (Filesystem s) envs Map.empty))"

section \<open>The Argo CD webhook\<close>

definition maxArgoRequests :: nat where
  "maxArgoRequests = 3"

text \<open>
  What one POST meets: the payload could not be marshalled, the request could not be
  sent, or a response with a status code came back.
\<close>

datatype http_outcome = MarshalFailed | RequestFailed | Response int

fun contains :: "int list \<Rightarrow> int \<Rightarrow> bool" where
  "contains [] e = False"
| "contains (a # s) e = (if a = e then True else contains s e)"

definition validResponseCodes :: "int list" where
  "validResponseCodes = [200]"

text \<open>\<^verbatim>\<open>doWebhookPostRequest\<close> returns \<^verbatim>\<open>(error, bool)\<close>: the error and whether to retry.\<close>

definition doWebhookPostRequest :: "http_outcome \<Rightarrow> error option \<times> bool" where
  "doWebhookPostRequest out =
     (case out of
        MarshalFailed \<Rightarrow> (Some (JsonError ''marshal''), False)
      | RequestFailed \<Rightarrow> (Some (OtherError ''doWebhookPostRequest: could not send request''), False)
      | Response StatusCode \<Rightarrow>
          if StatusCode \<ge> 500
          then (Some (OtherError ''doWebhookPostRequest: invalid status code from argo''), True)
          else if contains validResponseCodes StatusCode then (None, False)
          else (Some (OtherError ''doWebhookPostRequest: invalid status code from argo''), False))"

text \<open>
  The retry loop of \<^verbatim>\<open>sendWebhookToArgoCd\<close>. The log records the tries made, the
  sleeps in milliseconds and the \<^verbatim>\<open>success\<close> flag.
\<close>

record webhook_log =
  attempts :: "nat list"
  sleeps :: "nat list"
  success :: bool

function argoLoop :: "(nat \<Rightarrow> http_outcome) \<Rightarrow> nat \<Rightarrow> webhook_log \<Rightarrow> webhook_log" where
  "argoLoop post i lg =
     (if i \<le> maxArgoRequests then
        (case doWebhookPostRequest (post i) of
           (err, shouldRetry) \<Rightarrow>
             if err \<noteq> None \<and> shouldRetry then
               (if shouldRetry
                then argoLoop post (i + 1) (lg\<lparr>attempts := attempts lg @ [i], sleeps := sleeps lg @ [100 * i]\<rparr>)
                else lg\<lparr>attempts := attempts lg @ [i]\<rparr>)
             else lg\<lparr>attempts := attempts lg @ [i], success := True\<rparr>)
      else lg)"
  by pat_completeness auto
termination
  by (relation "measure (\<lambda>(post, i, lg). maxArgoRequests + 1 - i)") auto

declare argoLoop.simps [simp del]

definition webhookRetries :: "(nat \<Rightarrow> http_outcome) \<Rightarrow> webhook_log" where
  "webhookRetries post = argoLoop post 1 \<lparr>attempts = [], sleeps = [], success = False\<rparr>"

text \<open>The responses after which the loop goes on: a status code of 500 or above.\<close>

definition retried :: "http_outcome \<Rightarrow> bool" where
  "retried out = (case out of Response st \<Rightarrow> st \<ge> 500 | _ \<Rightarrow> False)"

section \<open>The writer: data\<close>

record AppEnv =
  App :: string
  Env :: string

record RootApp =
  root_Env :: string

record CommitIds =
  Previous :: "nat option"
  Current :: nat

record TransformerResult =
  ChangedApps :: "AppEnv list"
  DeletedRootApps :: "RootApp list"
  Commits :: "CommitIds option"

definition emptyResult :: TransformerResult where
  "emptyResult = \<lparr>ChangedApps = [], DeletedRootApps = [], Commits = None\<rparr>"

definition AddAppEnv :: "TransformerResult \<Rightarrow> string \<Rightarrow> string \<Rightarrow> TransformerResult" where
  "AddAppEnv r app env = r\<lparr>ChangedApps := ChangedApps r @ [\<lparr>App = app, Env = env\<rparr>]\<rparr>"

definition AddRootApp :: "TransformerResult \<Rightarrow> string \<Rightarrow> TransformerResult" where
  "AddRootApp r env = r\<lparr>DeletedRootApps := DeletedRootApps r @ [\<lparr>root_Env = env\<rparr>]\<rparr>"

definition Combine :: "TransformerResult \<Rightarrow> TransformerResult option \<Rightarrow> TransformerResult" where
  "Combine r other =
     (case other of
        None \<Rightarrow> r
      | Some ot \<Rightarrow>
          (let r1 = foldl (\<lambda>acc a. AddAppEnv acc (App a) (Env a)) r (ChangedApps ot);
               r2 = foldl (\<lambda>acc a. AddRootApp acc (root_Env a)) r1 (DeletedRootApps ot)
           in if Commits r2 = None then r2\<lparr>Commits := Commits ot\<rparr> else r2))"

definition CombineArray :: "TransformerResult option list \<Rightarrow> TransformerResult" where
  "CombineArray others = foldl Combine emptyResult others"

text \<open>
  A context, as far as the writer looks at it: \<^verbatim>\<open>ctx.Err()\<close> (nil until the context is
  done; \<^verbatim>\<open>ctx.Done()\<close> is closed exactly then) and the user stored under the auth
  package's key.
\<close>

record Context =
  ctx_Err :: "error option"
  ctx_User :: "User option"

definition ReadUserFromContext :: "Context \<Rightarrow> error + User" where
  "ReadUserFromContext c =
     (case ctx_User c of
        None \<Rightarrow> Inl (HttpInternalError ''could not read user from context'')
      | Some u \<Rightarrow> Inr u)"

text \<open>
  A transformer gets the context and the State and returns its commit message and its
  changes, or an error. Its writes go to the State's filesystem, which the model returns
  as the third component.
\<close>

type_synonym 'fs Transformer =
  "Context \<Rightarrow> 'fs State \<Rightarrow> error + (string \<times> TransformerResult option \<times> 'fs)"

record 'fs element =
  ctx :: Context
  transformers :: "'fs Transformer list"
  result :: nat

record Signature =
  sig_Name :: string
  sig_Email :: string

record 'fs GitCommit =
  author :: Signature
  committer :: Signature
  message :: string
  tree :: 'fs
  parent :: "nat option"

record RepositoryConfig =
  URL :: string
  Branch :: string
  CommitterEmail :: string
  CommitterName :: string
  cfg_BootstrapMode :: bool
  cfg_EnvironmentConfigsPath :: string
  ArgoWebhookUrl :: string
  WebURL :: string

text \<open>
  What the writer does to the world: sends on result channels (the channel of an element
  is a number), tracer spans, calls of the push action with what they returned, fetches,
  webhook dispatches with the change-set they report and the log of their tries, and
  signals of the notifier.
\<close>

datatype event =
    EvSend nat "error option"
  | EvSpan string
  | EvPushAction "error option"
  | EvFetch
  | EvWebhook TransformerResult webhook_log
  | EvNotify

text \<open>
  The state the writer works on: the local branch head, the commit objects (the id of a
  commit is its position), the local \<^verbatim>\<open>pushSuccess\<close> of \<^verbatim>\<open>ProcessQueueOnce\<close> that
  the push callback writes, the elements a non-blocking receive finds in the queue, and
  the events so far.
\<close>

record 'fs world =
  head :: "nat option"
  odb :: "'fs GitCommit list"
  pushSuccess :: bool
  queue :: "'fs element list"
  trace :: "event list"

datatype 'fs fetch_outcome =
    FetchFailed error
  | RemoteRefMissing
  | ResetFailed error
  | RemoteHead "'fs GitCommit"

record push_outcome =
  po_err :: "error option"
  po_updates :: "(string \<times> string) list"

text \<open>
  The repository with its collaborators. \<open>backOffProvider\<close> is the number of retries the
  back-off policy grants before it stops; \<open>pushAction\<close> and \<open>fetch\<close> are the remote, which
  may answer by everything that has happened; \<open>argoResponse\<close> is what the \<open>i\<close>-th POST to
  Argo CD meets. \<open>UpdateDatadogMetrics\<close>, \<open>afterTransform\<close> (it renders the Argo CD
  manifests into the staged tree), the tree builder's \<open>Insert\<close> and the failure of
  \<^verbatim>\<open>CreateCommitFromIds\<close> are steps of \<^verbatim>\<open>ApplyTransformers\<close> that can fail.
\<close>

record 'fs repository =
  config :: RepositoryConfig
  backOffProvider :: nat
  emptyTree :: 'fs
  UpdateDatadogMetrics :: "'fs State \<Rightarrow> error option"
  afterTransform :: "Context \<Rightarrow> 'fs State \<Rightarrow> error + 'fs"
  Insert :: "'fs \<Rightarrow> error + 'fs"
  createCommitError :: "'fs GitCommit \<Rightarrow> error option"
  fetch :: "'fs world \<Rightarrow> 'fs fetch_outcome"
  pushAction :: "'fs world \<Rightarrow> push_outcome"
  argoResponse :: "nat \<Rightarrow> http_outcome"

definition send :: "nat \<Rightarrow> error option \<Rightarrow> 'fs world \<Rightarrow> 'fs world" where
  "send ch err w = w\<lparr>trace := trace w @ [EvSend ch err]\<rparr>"

definition span :: "string \<Rightarrow> 'fs world \<Rightarrow> 'fs world" where
  "span name w = w\<lparr>trace := trace w @ [EvSpan name]\<rparr>"

section \<open>The writer: applying transformers\<close>

text \<open>\<^verbatim>\<open>StateAt(nil)\<close>: the State at the branch head; the empty State without a branch.\<close>

definition StateAt :: "'fs repository \<Rightarrow> 'fs world \<Rightarrow> error + 'fs State" where
  "StateAt r w =
     (case head w of
        None \<Rightarrow>
          Inr \<lparr>Filesystem = emptyTree r, Commit = None,
               BootstrapMode = cfg_BootstrapMode (config r),
               EnvironmentConfigsPath = cfg_EnvironmentConfigsPath (config r)\<rparr>
      | Some oid \<Rightarrow>
          if oid < length (odb w)
          then Inr \<lparr>Filesystem = tree (odb w ! oid), Commit = Some oid,
                    BootstrapMode = cfg_BootstrapMode (config r),
                    EnvironmentConfigsPath = cfg_EnvironmentConfigsPath (config r)\<rparr>
          else Inl (GitError ErrNotFound))"

fun runTransformers ::
  "Context \<Rightarrow> 'fs Transformer list \<Rightarrow> 'fs State \<Rightarrow> string list \<Rightarrow> TransformerResult option list
   \<Rightarrow> error + (string list \<times> 'fs State \<times> TransformerResult option list)" where
  "runTransformers c [] state commitMsg changes = Inr (commitMsg, state, changes)"
| "runTransformers c (t # ts) state commitMsg changes =
     (case t c state of
        Inl err \<Rightarrow> Inl err
      | Inr (msg, subChanges, fs') \<Rightarrow>
          runTransformers c ts (state\<lparr>Filesystem := fs'\<rparr>) (commitMsg @ [msg]) (changes @ [subChanges]))"

definition ApplyTransformersInternal ::
  "'fs repository \<Rightarrow> Context \<Rightarrow> 'fs Transformer list \<Rightarrow> 'fs world
   \<Rightarrow> error + (string list \<times> 'fs State \<times> TransformerResult option list)" where
  "ApplyTransformersInternal r c ts w =
     (case StateAt r w of
        Inl err \<Rightarrow> Inl (GrpcInternalError (Wrapf ''failure in StateAt'' err))
      | Inr state \<Rightarrow> runTransformers c ts state [] [])"

text \<open>\<^verbatim>\<open>strings.Join(elems, sep)\<close>.\<close>

fun strings_Join :: "string list \<Rightarrow> string \<Rightarrow> string" where
  "strings_Join [] sep = []"
| "strings_Join [a] sep = a"
| "strings_Join (a # b # rest) sep = a @ sep @ strings_Join (b # rest) sep"

text \<open>
  \<^verbatim>\<open>CreateCommitFromIds\<close> on the branch reference: the commit becomes an object and the
  branch head, and its id is returned.
\<close>

definition CreateCommitFromIds ::
  "'fs repository \<Rightarrow> 'fs GitCommit \<Rightarrow> 'fs world \<Rightarrow> (error + nat) \<times> 'fs world" where
  "CreateCommitFromIds r c w =
     (case createCommitError r c of
        Some err \<Rightarrow> (Inl err, w)
      | None \<Rightarrow> (Inr (length (odb w)), w\<lparr>odb := odb w @ [c], head := Some (length (odb w))\<rparr>))"

definition ApplyTransformers ::
  "'fs repository \<Rightarrow> Context \<Rightarrow> 'fs Transformer list \<Rightarrow> 'fs world
   \<Rightarrow> (error + TransformerResult) \<times> 'fs world" where
  "ApplyTransformers r c ts w =
     (case ApplyTransformersInternal r c ts w of
        Inl err \<Rightarrow> (Inl err, w)
      | Inr (commitMsg, state, changes) \<Rightarrow>
     (case UpdateDatadogMetrics r state of
        Some err \<Rightarrow> (Inl err, w)
      | None \<Rightarrow>
     (case afterTransform r c state of
        Inl err \<Rightarrow> (Inl (GrpcInternalError (Wrapf ''failure in afterTransform'' err)), w)
      | Inr fs1 \<Rightarrow>
     (case Insert r fs1 of
        Inl err \<Rightarrow> (Inl (InternalError err), w)
      | Inr treeId \<Rightarrow>
     (case ReadUserFromContext c of
        Inl err \<Rightarrow> (Inl err, w)
      | Inr user \<Rightarrow>
          (let committer = \<lparr>sig_Name = CommitterName (config r), sig_Email = CommitterEmail (config r)\<rparr>;
               author = \<lparr>sig_Name = Name user, sig_Email = Email user\<rparr>;
               rev = Commit state;
               oldCommitId = rev
           in case CreateCommitFromIds r
                     \<lparr>author = author, committer = committer,
                      message = strings_Join commitMsg [CHR 0x0A], tree = treeId, parent = rev\<rparr> w of
                (Inl err, w1) \<Rightarrow> (Inl (GrpcInternalError (Wrapf ''createCommitFromIds failed'' err)), w1)
              | (Inr newCommitId, w1) \<Rightarrow>
                  (Inr ((CombineArray changes)\<lparr>Commits := Some \<lparr>Previous = oldCommitId, Current = newCommitId\<rparr>\<rparr>),
                   w1)))))))"

section \<open>The writer: remote operations\<close>

text \<open>
  \<^verbatim>\<open>FetchAndReset\<close>. A failed fetch is wrapped as an internal error. When the remote
  branch does not exist the revision stays the zero id, whose lookup fails. Any later
  failure (creating the reference, looking the commit up, the reset) is returned as it is.
  Otherwise the local branch is the remote head.
\<close>

definition FetchAndReset :: "'fs repository \<Rightarrow> 'fs world \<Rightarrow> error option \<times> 'fs world" where
  "FetchAndReset r w =
     (let w1 = w\<lparr>trace := trace w @ [EvFetch]\<rparr>
      in case fetch r w of
           FetchFailed err \<Rightarrow> (Some (InternalError err), w1)
         | RemoteRefMissing \<Rightarrow> (Some (GitError ErrNotFound), w1)
         | ResetFailed err \<Rightarrow> (Some err, w1)
         | RemoteHead c \<Rightarrow> (None, w1\<lparr>odb := odb w1 @ [c], head := Some (length (odb w1))\<rparr>))"

text \<open>
  \<^verbatim>\<open>defaultPushUpdate(branch, &success)\<close>: the callback overwrites \<^verbatim>\<open>*success\<close> at
  every reference update the push reports.
\<close>

type_synonym PushUpdateFunc = "string \<Rightarrow> string \<Rightarrow> string \<Rightarrow> bool \<Rightarrow> bool"

definition defaultPushUpdate :: PushUpdateFunc where
  "defaultPushUpdate branch refName status old =
     (refName = ''refs/heads/'' @ branch \<and> status = [])"

text \<open>
  One call of the operation that \<^verbatim>\<open>Push\<close> hands to \<^verbatim>\<open>backoff.Retry\<close>: a span, the
  push action, its reference updates through the callback.
\<close>

definition pushOnce :: "'fs repository \<Rightarrow> PushUpdateFunc \<Rightarrow> 'fs world \<Rightarrow> error option \<times> 'fs world" where
  "pushOnce r callback w =
     (let w1 = span ''Push'' w;
          out = pushAction r w1
      in (po_err out,
          w1\<lparr>pushSuccess := foldl (\<lambda>s (refName, status). callback (Branch (config r)) refName status s)
                               (pushSuccess w1) (po_updates out),
             trace := trace w1 @ [EvPushAction (po_err out)]\<rparr>))"

text \<open>
  \<^verbatim>\<open>backoff.Retry\<close>: success ends it, a permanent error ends it with that error, and so
  does the policy when it grants no further retry. The operation marks the
  non-fast-forward error of git as permanent.
\<close>

fun Retry :: "'fs repository \<Rightarrow> PushUpdateFunc \<Rightarrow> nat \<Rightarrow> 'fs world \<Rightarrow> error option \<times> 'fs world" where
  "Retry r callback 0 w = pushOnce r callback w"
| "Retry r callback (Suc n) w =
     (case pushOnce r callback w of
        (None, w1) \<Rightarrow> (None, w1)
      | (Some err, w1) \<Rightarrow>
          if err = GitError ErrorCodeNonFastForward then (Some err, w1)
          else Retry r callback n w1)"

definition Push :: "'fs repository \<Rightarrow> PushUpdateFunc \<Rightarrow> 'fs world \<Rightarrow> error option \<times> 'fs world" where
  "Push r callback w = Retry r callback (backOffProvider r) (span ''Apply'' w)"

section \<open>The writer: the queue\<close>

fun drainLoop :: "'fs element list \<Rightarrow> 'fs element list \<Rightarrow> event list \<Rightarrow> 'fs element list \<times> event list" where
  "drainLoop [] elements tr = (elements, tr)"
| "drainLoop (f # fs) elements tr =
     (case ctx_Err (ctx f) of
        Some cerr \<Rightarrow> drainLoop fs elements (tr @ [EvSend (result f) (Some cerr)])
      | None \<Rightarrow> drainLoop fs (elements @ [f]) tr)"

definition drainQueue :: "'fs world \<Rightarrow> 'fs element list \<times> 'fs world" where
  "drainQueue w =
     (case drainLoop (queue w) [] (trace w) of
        (elements, tr) \<Rightarrow> (elements, w\<lparr>queue := [], trace := tr\<rparr>))"

text \<open>
  \<^verbatim>\<open>applyElements\<close>: the loop over the index \<open>i\<close> with its slice, and the recursive call
  after a fetch-and-reset.
\<close>

function applyElements ::
  "'fs repository \<Rightarrow> bool \<Rightarrow> 'fs element list \<Rightarrow> nat \<Rightarrow> TransformerResult \<Rightarrow> 'fs world
   \<Rightarrow> 'fs element list \<times> error option \<times> TransformerResult option \<times> 'fs world" where
  "applyElements r allowFetchAndReset elements i changes w =
     (if i < length elements then
        (case ApplyTransformers r (ctx (elements ! i)) (transformers (elements ! i)) w of
           (Inr subChanges, w1) \<Rightarrow>
             applyElements r allowFetchAndReset elements (i + 1) (Combine changes (Some subChanges)) w1
         | (Inl applyErr, w1) \<Rightarrow>
             if errors_Is applyErr invalidJson \<and> allowFetchAndReset then
               (case FetchAndReset r w1 of
                  (Some err, w2) \<Rightarrow> (elements, Some err, None, w2)
                | (None, w2) \<Rightarrow> applyElements r False elements 0 emptyResult w2)
             else
               applyElements r allowFetchAndReset (take i elements @ drop (i + 1) elements) i
                 (Combine changes None) (send (result (elements ! i)) (Some applyErr) w1))
      else (elements, None, Some changes, w))"
  by pat_completeness auto
termination
  by (relation "measures [\<lambda>(r, allow, els, i, ch, w). if allow then 1 else 0,
                          \<lambda>(r, allow, els, i, ch, w). length els - i]") auto

declare applyElements.simps [simp del]

section \<open>The writer: one iteration\<close>

definition sendWebhookToArgoCd :: "'fs repository \<Rightarrow> TransformerResult option \<Rightarrow> 'fs world \<Rightarrow> 'fs world" where
  "sendWebhookToArgoCd r changes w =
     w\<lparr>trace := trace w @ [EvWebhook (case changes of None \<Rightarrow> emptyResult | Some ch \<Rightarrow> ch)
                                     (webhookRetries (argoResponse r))]\<rparr>"

definition Notify :: "'fs world \<Rightarrow> 'fs world" where
  "Notify w = w\<lparr>trace := trace w @ [EvNotify]\<rparr>"

text \<open>The statements of \<^verbatim>\<open>ProcessQueueOnce\<close> from the span \<^verbatim>\<open>PostPush\<close> to its end.\<close>

definition postPush :: "'fs repository \<Rightarrow> TransformerResult option \<Rightarrow> 'fs world \<Rightarrow> 'fs world" where
  "postPush r changes w =
     (let w1 = span ''PostPush'' w;
          w2 = (if ArgoWebhookUrl (config r) \<noteq> [] then sendWebhookToArgoCd r changes w1 else w1)
      in Notify w2)"

text \<open>The deferred function: every element of the slice gets the error variable.\<close>

definition deferred :: "'fs element list \<Rightarrow> error option \<Rightarrow> 'fs world \<Rightarrow> 'fs world" where
  "deferred elements err w = foldl (\<lambda>acc el. send (result el) err acc) w elements"

definition ProcessQueueOnce ::
  "'fs repository \<Rightarrow> PushUpdateFunc \<Rightarrow> 'fs element \<Rightarrow> 'fs world \<Rightarrow> 'fs world" where
  "ProcessQueueOnce r callback e w0 =
     (case ctx_Err (ctx e) of
        Some cerr \<Rightarrow> deferred [e] (Some panicError) (send (result e) (Some cerr) w0)
      | None \<Rightarrow>
     (case drainQueue w0 of (drained, w1) \<Rightarrow>
     (case applyElements r True (e # drained) 0 emptyResult (w1\<lparr>pushSuccess := True\<rparr>) of
        (elements, Some err, changes, w3) \<Rightarrow> deferred elements (Some err) w3
      | (elements, None, changes, w3) \<Rightarrow>
          if length elements = 0 then deferred elements None w3
          else
     (case Push r callback w3 of
        (None, w4) \<Rightarrow>
          deferred elements
            (if \<not> pushSuccess w4
             then Some (OtherError ''failed to push - this indicates that branch protection is enabled'')
             else None)
            (postPush r changes w4)
      | (Some perr, w4) \<Rightarrow>
          if perr = GitError ErrorCodeNonFastForward then
            (case FetchAndReset r w4 of
               (Some ferr, w5) \<Rightarrow> deferred elements (Some ferr) w5
             | (None, w5) \<Rightarrow>
                 (case applyElements r False elements 0 emptyResult w5 of
                    (elements2, err2, changes2, w6) \<Rightarrow>
                      if err2 \<noteq> None \<or> length elements2 = 0 then deferred elements2 err2 w6
                      else
                        (case Push r callback w6 of
                           (pushErr, w7) \<Rightarrow>
                             deferred elements2 (map_option InternalError pushErr) (postPush r changes w7))))
          else if errors_Is perr DeadlineExceeded \<or> errors_Is perr Canceled then
            deferred elements (Some (GrpcCanceledError perr)) (postPush r changes w4)
          else
            deferred elements
              (Some (GrpcPublicError ''could not push to manifest repository - this indicates that the ssh key does not have write access''))
              (postPush r changes w4)))))"

section \<open>Reading the events of an iteration\<close>

text \<open>
  Sends on result channels; the events of one push attempt; the events that are neither
  a webhook dispatch nor a notification; and what the statements after the push add to
  the events.
\<close>

definition isSend :: "event \<Rightarrow> bool" where
  "isSend ev = (case ev of EvSend ch err \<Rightarrow> True | _ \<Rightarrow> False)"

definition isPushAttempt :: "event \<Rightarrow> bool" where
  "isPushAttempt ev = (case ev of EvPushAction err \<Rightarrow> True | EvSpan name \<Rightarrow> name = ''Push'' | _ \<Rightarrow> False)"

definition quiet :: "event \<Rightarrow> bool" where
  "quiet ev = (case ev of EvWebhook ch lg \<Rightarrow> False | EvNotify \<Rightarrow> False | _ \<Rightarrow> True)"

definition postPushEvents :: "'fs repository \<Rightarrow> TransformerResult option \<Rightarrow> event list" where
  "postPushEvents r changes =
     [EvSpan ''PostPush''] @
     (if ArgoWebhookUrl (config r) \<noteq> []
      then [EvWebhook (case changes of None \<Rightarrow> emptyResult | Some ch \<Rightarrow> ch) (webhookRetries (argoResponse r))]
      else []) @
     [EvNotify]"

text \<open>
  \<open>quietly w w'\<close>: from \<open>w\<close> to \<open>w'\<close> events were only added, none of them a webhook
  dispatch or a notification; \<open>pushing w w'\<close>: and a push action is among them.
\<close>

definition quietly :: "'fs world \<Rightarrow> 'fs world \<Rightarrow> bool" where
  "quietly w w' = (\<exists>evs. trace w' = trace w @ evs \<and> list_all quiet evs)"

definition pushing :: "'fs world \<Rightarrow> 'fs world \<Rightarrow> bool" where
  "pushing w w' = (\<exists>evs. trace w' = trace w @ evs \<and> list_all quiet evs \<and> (\<exists>x. EvPushAction x \<in> set evs))"

section \<open>The apply pass, as its description words it\<close>

text \<open>
  Two passes over the elements written after the description of the writer, to compare
  with \<open>applyElements\<close>. \<open>kept\<close> are the elements applied so far that stay in the batch.
  With recovery disabled, an element whose transformers fail gets the error on its own
  result channel and leaves the batch, and the pass goes on with the next element.
\<close>

fun plainPass ::
  "'fs repository \<Rightarrow> 'fs element list \<Rightarrow> 'fs element list \<Rightarrow> TransformerResult \<Rightarrow> 'fs world
   \<Rightarrow> 'fs element list \<times> error option \<times> TransformerResult option \<times> 'fs world" where
  "plainPass r kept [] changes w = (kept, None, Some changes, w)"
| "plainPass r kept (e # es) changes w =
     (case ApplyTransformers r (ctx e) (transformers e) w of
        (Inr subChanges, w1) \<Rightarrow> plainPass r (kept @ [e]) es (Combine changes (Some subChanges)) w1
      | (Inl applyErr, w1) \<Rightarrow> plainPass r kept es changes (send (result e) (Some applyErr) w1))"

text \<open>
  With recovery allowed, the invalid-JSON error aborts the pass: one fetch-and-reset,
  then the whole pass again over the batch as it stands, with recovery disabled. Any
  other error fails only its element.
\<close>

fun recoveringPass ::
  "'fs repository \<Rightarrow> 'fs element list \<Rightarrow> 'fs element list \<Rightarrow> TransformerResult \<Rightarrow> 'fs world
   \<Rightarrow> 'fs element list \<times> error option \<times> TransformerResult option \<times> 'fs world" where
  "recoveringPass r kept [] changes w = (kept, None, Some changes, w)"
| "recoveringPass r kept (e # es) changes w =
     (case ApplyTransformers r (ctx e) (transformers e) w of
        (Inr subChanges, w1) \<Rightarrow> recoveringPass r (kept @ [e]) es (Combine changes (Some subChanges)) w1
      | (Inl applyErr, w1) \<Rightarrow>
          if errors_Is applyErr invalidJson then
            (case FetchAndReset r w1 of
               (Some err, w2) \<Rightarrow> (kept @ e # es, Some err, None, w2)
             | (None, w2) \<Rightarrow> plainPass r [] (kept @ e # es) emptyResult w2)
          else recoveringPass r kept es changes (send (result e) (Some applyErr) w1))"

section \<open>Concrete inputs\<close>

text \<open>A small tree: two releases and a loose file, and one deployed version.\<close>

definition demoJoin :: "string list \<Rightarrow> string" where
  "demoJoin ps = foldr (\<lambda>a b. if b = [] then a else a @ ''/'' @ b) ps []"

definition demoFS :: Filesystem where
  "demoFS = \<lparr>
     ReadDir = (\<lambda>p. if p = ''applications/app1/releases''
                     then Inr [\<lparr>fi_Name = ''10'', fi_IsDir = True\<rparr>, \<lparr>fi_Name = ''2'', fi_IsDir = True\<rparr>,
                               \<lparr>fi_Name = ''README'', fi_IsDir = False\<rparr>]
                     else Inl ErrNotExist),
     Readlink = (\<lambda>p. if p = ''environments/env1/applications/app1/version''
                      then Inr ''../../../applications/app1/releases/10''
                      else Inl ErrNotExist),
     Stat = (\<lambda>p. if p = ''environments/env1/applications/app1/../../../applications/app1/releases/10''
                  then Inr \<lparr>fi_Name = ''10'', fi_IsDir = True\<rparr>
                  else Inl ErrNotExist),
     Open_file = (\<lambda>p. Inl ErrNotExist),
     Join = demoJoin\<rparr>"

definition demoState :: "Filesystem State" where
  "demoState = \<lparr>Filesystem = demoFS, Commit = None, BootstrapMode = False, EnvironmentConfigsPath = []\<rparr>"

text \<open>
  Bootstrap mode: the configurations file on disk holds an opening brace and nothing
  else. The decoders accept the empty object and reject everything else, here with the
  message of the standard library for a truncated document.
\<close>

definition bootstrapState :: "Filesystem State" where
  "bootstrapState = \<lparr>Filesystem = demoFS, Commit = None, BootstrapMode = True,
                     EnvironmentConfigsPath = ''/kp/environment_configs.json''\<rparr>"

definition demoReadFile :: "string \<Rightarrow> error + string" where
  "demoReadFile p = (if p = ''/kp/environment_configs.json'' then Inr ''{'' else Inl ErrNotExist)"

definition demoUnmarshal :: "string \<Rightarrow> string + (string \<rightharpoonup> nat)" where
  "demoUnmarshal buf = (if buf = ''{}'' then Inr Map.empty else Inl ''unexpected end of JSON input'')"

definition demoDecode :: "string \<Rightarrow> string + nat" where
  "demoDecode buf = (if buf = ''{}'' then Inr 0 else Inl ''unexpected end of JSON input'')"

text \<open>An Argo CD that answers every request with status 600.\<close>

definition always600 :: "nat \<Rightarrow> http_outcome" where
  "always600 i = Response 600"

text \<open>
  A repository for the writer. Its trees are numbers: the empty tree is 0 and every
  transformer that succeeds adds one. Every push to the remote fails, the policy grants
  one retry, the remote branch holds one commit of an administrator, and Argo CD answers
  200.
\<close>

definition demoConfig :: RepositoryConfig where
  "demoConfig = \<lparr>URL = ''git@example.com:manifests.git'', Branch = ''master'',
                  CommitterEmail = ''kuberpult@example.com'', CommitterName = ''kuberpult'',
                  cfg_BootstrapMode = False, cfg_EnvironmentConfigsPath = [],
                  ArgoWebhookUrl = ''https://argo.example.com'', WebURL = ''https://example.com/manifests''\<rparr>"

definition remoteCommit :: "nat GitCommit" where
  "remoteCommit = \<lparr>author = \<lparr>sig_Name = ''admin'', sig_Email = ''admin@example.com''\<rparr>,
                    committer = \<lparr>sig_Name = ''admin'', sig_Email = ''admin@example.com''\<rparr>,
                    message = ''fix config'', tree = 100, parent = None\<rparr>"

definition demoRepo :: "nat repository" where
  "demoRepo = \<lparr>config = demoConfig, backOffProvider = 1, emptyTree = 0,
                UpdateDatadogMetrics = (\<lambda>s. None),
                afterTransform = (\<lambda>c s. Inr (Filesystem s)),
                Insert = Inr,
                createCommitError = (\<lambda>c. None),
                fetch = (\<lambda>w. RemoteHead remoteCommit),
                pushAction = (\<lambda>w. \<lparr>po_err = Some (GitError ErrorCodeOther), po_updates = []\<rparr>),
                argoResponse = (\<lambda>i. Response 200)\<rparr>"

text \<open>
  The remote has moved: a push is rejected as non-fast-forward until the writer has
  fetched, and fails for another reason afterwards.
\<close>

definition racedRepo :: "nat repository" where
  "racedRepo = demoRepo\<lparr>pushAction :=
     (\<lambda>w. \<lparr>po_err = Some (GitError (if EvFetch \<in> set (trace w) then ErrorCodeOther else ErrorCodeNonFastForward)),
            po_updates = []\<rparr>)\<rparr>"

definition demoUser :: User where
  "demoUser = \<lparr>Email = ''dev@example.com'', Name = ''dev'', DexAuthContext = None\<rparr>"

definition liveCtx :: Context where
  "liveCtx = \<lparr>ctx_Err = None, ctx_User = Some demoUser\<rparr>"

definition doneCtx :: Context where
  "doneCtx = \<lparr>ctx_Err = Some Canceled, ctx_User = Some demoUser\<rparr>"

definition releaseT :: "nat Transformer" where
  "releaseT c s = Inr (''create release'', None, Filesystem s + 1)"

definition deployT :: "nat Transformer" where
  "deployT c s = Inr (''deploy app1'',
                      Some \<lparr>ChangedApps = [\<lparr>App = ''app1'', Env = ''env1''\<rparr>], DeletedRootApps = [], Commits = None\<rparr>,
                      Filesystem s + 1)"

definition failT :: "nat Transformer" where
  "failT c s = Inl (OtherError ''locked'')"

definition jsonT :: "nat Transformer" where
  "jsonT c s = (if Filesystem s = 0 then Inl (Wrapf ''environments/dev/config.json : '' invalidJson)
               else Inr (''unlock'', None, Filesystem s + 1))"

definition world0 :: "nat world" where
  "world0 = \<lparr>head = None, odb = [], pushSuccess = True, queue = [], trace = []\<rparr>"

text \<open>The remote accepts the push and declines the update of the branch reference.\<close>

definition protectedRepo :: "nat repository" where
  "protectedRepo = demoRepo\<lparr>pushAction :=
     (\<lambda>w. \<lparr>po_err = None, po_updates = [(''refs/heads/master'', ''protected branch hook declined'')]\<rparr>)\<rparr>"

text \<open>Elements of the queue.\<close>

definition el1 :: "nat element" where
  "el1 = \<lparr>ctx = liveCtx, transformers = [deployT], result = 1\<rparr>"

definition lockedEl :: "nat element" where
  "lockedEl = \<lparr>ctx = liveCtx, transformers = [failT], result = 1\<rparr>"

definition jsonEl :: "nat element" where
  "jsonEl = \<lparr>ctx = liveCtx, transformers = [jsonT], result = 2\<rparr>"

definition deployEl :: "nat element" where
  "deployEl = \<lparr>ctx = liveCtx, transformers = [releaseT, deployT], result = 3\<rparr>"

definition cancelledEl :: "nat element" where
  "cancelledEl = \<lparr>ctx = doneCtx, transformers = [deployT], result = 1\<rparr>"

text \<open>
  A tree in which the link \<open>version\<close> of \<open>app1\<close> in \<open>env1\<close> points to a plain file
  named \<open>5\<close> beside it, and the link \<open>queued_version\<close> to the loose file \<open>README\<close> of
  the releases directory. The releases are those of the small tree: 10 and 2.
\<close>

definition strayFS :: Filesystem where
  "strayFS = demoFS\<lparr>
     Readlink := (\<lambda>p. if p = ''environments/env1/applications/app1/version'' then Inr ''deployed_by/5''
                      else if p = ''environments/env1/applications/app1/queued_version''
                      then Inr ''../../../applications/app1/releases/README''
                      else Inl ErrNotExist),
     Stat := (\<lambda>p. if p = ''environments/env1/applications/app1/deployed_by/5''
                  then Inr \<lparr>fi_Name = ''5'', fi_IsDir = False\<rparr>
                  else if p = ''environments/env1/applications/app1/../../../applications/app1/releases/README''
                  then Inr \<lparr>fi_Name = ''README'', fi_IsDir = False\<rparr>
                  else Inl ErrNotExist)\<rparr>"

definition strayState :: "Filesystem State" where
  "strayState = \<lparr>Filesystem = strayFS, Commit = None, BootstrapMode = False, EnvironmentConfigsPath = []\<rparr>"

text \<open>
  The remote has moved and cannot be reached for the fetch: every push is rejected as
  non-fast-forward and the fetch fails.
\<close>

definition strandedRepo :: "nat repository" where
  "strandedRepo = demoRepo\<lparr>
     fetch := (\<lambda>w. FetchFailed (OtherError ''connection refused'')),
     pushAction := (\<lambda>w. \<lparr>po_err = Some (GitError ErrorCodeNonFastForward), po_updates = []\<rparr>)\<rparr>"

section \<open>Releases of an application\<close>

lemmas parse_defs = ParseUint_def digit10_def cutoff_def maxUint64_def

lemma parseNames_filter:
  "parseNames ns = map (\<lambda>n. fst (ParseUint n)) (filter (\<lambda>n. snd (ParseUint n) = None) ns)"
  by (induction ns) (auto split: prod.splits option.splits)

text \<open>
  What the two accessors return for one listing: \<open>Releases\<close> keeps the order in which
  \<open>ReadDir\<close> yields the entries, \<open>GetApplicationReleases\<close> sorts the same numbers.
\<close>

lemma Releases_listing_vs_sorted:
  assumes "ReadDir (Filesystem s) (Join (Filesystem s) [''applications'', app, ''releases'']) = Inr entries"
  shows "Releases s app =
           Inr (map (\<lambda>e. fst (ParseUint (fi_Name e))) (filter (\<lambda>e. snd (ParseUint (fi_Name e)) = None) entries)) \<and>
         (\<exists>ys. GetApplicationReleases s app = Inr ys \<and> sorted ys \<and>
               mset ys = mset (map (\<lambda>e. fst (ParseUint (fi_Name e))) (filter (\<lambda>e. snd (ParseUint (fi_Name e)) = None) entries)))"
  using assms
  by (simp add: Releases_def GetApplicationReleases_def names_def parseNames_filter filter_map comp_def)

text \<open>
  C2: \<open>Releases\<close> is to return the numeric entries of the releases directory in ascending
  order whatever the order of the listing. It does not: it never sorts. When the directory
  lists \<open>10\<close> before \<open>2\<close> (the order of the names as strings) and then a file
  \<open>README\<close>, \<open>Releases\<close> skips \<open>README\<close> and returns \<open>[10, 2]\<close>, which is not
  ascending, while \<open>GetApplicationReleases\<close> returns \<open>[2, 10]\<close> for the same directory.
\<close>

theorem Releases_not_ascending:
  "ReadDir (Filesystem demoState) (Join (Filesystem demoState) [''applications'', ''app1'', ''releases''])
     = Inr [\<lparr>fi_Name = ''10'', fi_IsDir = True\<rparr>, \<lparr>fi_Name = ''2'', fi_IsDir = True\<rparr>,
            \<lparr>fi_Name = ''README'', fi_IsDir = False\<rparr>] \<and>
   Releases demoState ''app1'' = Inr [10, 2] \<and> \<not> sorted [10, 2 :: nat] \<and>
   GetApplicationReleases demoState ''app1'' = Inr [2, 10]"
proof -
  have rd: "ReadDir (Filesystem demoState) (Join (Filesystem demoState) [''applications'', ''app1'', ''releases''])
        = Inr [\<lparr>fi_Name = ''10'', fi_IsDir = True\<rparr>, \<lparr>fi_Name = ''2'', fi_IsDir = True\<rparr>,
               \<lparr>fi_Name = ''README'', fi_IsDir = False\<rparr>]"
    by (simp add: demoState_def demoFS_def demoJoin_def)
  have p: "ParseUint ''10'' = (10, None)" "ParseUint ''2'' = (2, None)" "ParseUint ''README'' = (0, Some ErrSyntax)"
    by (simp_all add: parse_defs)
  from Releases_listing_vs_sorted[OF rd] obtain ys where
    r: "Releases demoState ''app1'' = Inr [10, 2]" and
    g: "GetApplicationReleases demoState ''app1'' = Inr ys" "sorted ys" "mset ys = mset [10, 2]"
    by (auto simp: p)
  from properties_for_sort[OF g(3) g(2)] have "ys = [2, 10]" by simp
  with rd r g(1) show ?thesis by simp
qed

section \<open>The version links\<close>

lemma readSymlink_absent:
  "Readlink (Filesystem s) (Join (Filesystem s) [''environments'', env, ''applications'', app, nm]) = Inl err \<Longrightarrow>
   errors_Is err ErrNotExist \<Longrightarrow> readSymlink s env app nm = (None, None)"
  by (simp add: readSymlink_def Let_def)

lemma readSymlink_unreadable:
  "Readlink (Filesystem s) (Join (Filesystem s) [''environments'', env, ''applications'', app, nm]) = Inl err \<Longrightarrow>
   \<not> errors_Is err ErrNotExist \<Longrightarrow>
   fst (readSymlink s env app nm) = None \<and> snd (readSymlink s env app nm) \<noteq> None"
  by (simp add: readSymlink_def Let_def)

lemma readSymlink_dangling:
  "Readlink (Filesystem s) (Join (Filesystem s) [''environments'', env, ''applications'', app, nm]) = Inr lnk \<Longrightarrow>
   Stat (Filesystem s) (Join (Filesystem s) [''environments'', env, ''applications'', app, lnk]) = Inl err \<Longrightarrow>
   fst (readSymlink s env app nm) = None \<and> snd (readSymlink s env app nm) \<noteq> None"
  by (simp add: readSymlink_def Let_def)

lemma readSymlink_present:
  "Readlink (Filesystem s) (Join (Filesystem s) [''environments'', env, ''applications'', app, nm]) = Inr lnk \<Longrightarrow>
   Stat (Filesystem s) (Join (Filesystem s) [''environments'', env, ''applications'', app, lnk]) = Inr info \<Longrightarrow>
   readSymlink s env app nm = (Some (fst (ParseUint (fi_Name info))), snd (ParseUint (fi_Name info)))"
  by (simp add: readSymlink_def Let_def split: prod.splits)

lemma readSymlink_value:
  "readSymlink s env app nm = (Some v, None) \<Longrightarrow>
   \<exists>lnk info.
     Readlink (Filesystem s) (Join (Filesystem s) [''environments'', env, ''applications'', app, nm]) = Inr lnk \<and>
     Stat (Filesystem s) (Join (Filesystem s) [''environments'', env, ''applications'', app, lnk]) = Inr info \<and>
     ParseUint (fi_Name info) = (v, None)"
  by (auto simp: readSymlink_def Let_def split: sum.splits if_splits prod.splits)

text \<open>
  C9, as stated, fails: the number of a link that is present need not be the name of an
  existing release directory. In the tree \<open>strayState\<close> the link \<open>version\<close> points to the
  plain file \<open>deployed_by/5\<close>: \<open>GetEnvironmentApplicationVersion\<close> returns 5 without an
  error, the target is no directory, and the application has the releases 2 and 10 only.
  There the link \<open>queued_version\<close> points to a file whose name is no number:
  \<open>GetQueuedVersion\<close> returns the number 0 together with the syntax error.
\<close>

theorem version_link_to_plain_file:
  "GetEnvironmentApplicationVersion strayState ''env1'' ''app1'' = (Some 5, None) \<and>
   Stat (Filesystem strayState) ''environments/env1/applications/app1/deployed_by/5''
     = Inr \<lparr>fi_Name = ''5'', fi_IsDir = False\<rparr> \<and>
   GetApplicationReleases strayState ''app1'' = Inr [2, 10] \<and>
   GetQueuedVersion strayState ''env1'' ''app1'' = (Some 0, Some ErrSyntax)"
proof -
  have v: "GetEnvironmentApplicationVersion strayState ''env1'' ''app1'' = (Some 5, None)"
    by (simp add: GetEnvironmentApplicationVersion_def readSymlink_def strayState_def strayFS_def demoFS_def
          demoJoin_def parse_defs)
  have st: "Stat (Filesystem strayState) ''environments/env1/applications/app1/deployed_by/5''
              = Inr \<lparr>fi_Name = ''5'', fi_IsDir = False\<rparr>"
    by (simp add: strayState_def strayFS_def demoFS_def)
  have q: "GetQueuedVersion strayState ''env1'' ''app1'' = (Some 0, Some ErrSyntax)"
    by (simp add: GetQueuedVersion_def queueFileName_def readSymlink_def strayState_def strayFS_def demoFS_def
          demoJoin_def parse_defs)
  have rd: "ReadDir (Filesystem strayState) (Join (Filesystem strayState) [''applications'', ''app1'', ''releases''])
        = Inr [\<lparr>fi_Name = ''10'', fi_IsDir = True\<rparr>, \<lparr>fi_Name = ''2'', fi_IsDir = True\<rparr>,
               \<lparr>fi_Name = ''README'', fi_IsDir = False\<rparr>]"
    by (simp add: strayState_def strayFS_def demoFS_def demoJoin_def)
  have p: "ParseUint ''10'' = (10, None)" "ParseUint ''2'' = (2, None)" "ParseUint ''README'' = (0, Some ErrSyntax)"
    by (simp_all add: parse_defs)
  from Releases_listing_vs_sorted[OF rd] obtain ys where
    g: "GetApplicationReleases strayState ''app1'' = Inr ys" "sorted ys" "mset ys = mset [10, 2]"
    by (auto simp: p)
  from properties_for_sort[OF g(3) g(2)] have "ys = [2, 10]" by simp
  with v st q g(1) show ?thesis by simp
qed

text \<open>
  C9, amended: for \<open>GetEnvironmentApplicationVersion\<close> and its link \<open>version\<close>, and likewise
  for \<open>GetQueuedVersion\<close> and its link \<open>queued_version\<close>: an absent link gives nil without
  an error; a link that cannot be read for another reason, and a link whose target does
  not exist, give an error and no value; a link whose target exists gives what
  \<open>ParseUint\<close> makes of the target's base name, the number and the error, whatever the
  target is, a directory or a file, a release or not; so a value that comes without an
  error is the numeric base name of a target that exists.
\<close>

theorem version_links_resolve:
  assumes "(nm, r) = (''version'', GetEnvironmentApplicationVersion s env app) \<or>
           (nm, r) = (queueFileName, GetQueuedVersion s env app)"
  shows "(\<forall>err. Readlink (Filesystem s) (Join (Filesystem s) [''environments'', env, ''applications'', app, nm]) = Inl err
              \<and> errors_Is err ErrNotExist \<longrightarrow> r = (None, None)) \<and>
         (\<forall>err. Readlink (Filesystem s) (Join (Filesystem s) [''environments'', env, ''applications'', app, nm]) = Inl err
              \<and> \<not> errors_Is err ErrNotExist \<longrightarrow> fst r = None \<and> snd r \<noteq> None) \<and>
         (\<forall>lnk err. Readlink (Filesystem s) (Join (Filesystem s) [''environments'', env, ''applications'', app, nm]) = Inr lnk
              \<and> Stat (Filesystem s) (Join (Filesystem s) [''environments'', env, ''applications'', app, lnk]) = Inl err
              \<longrightarrow> fst r = None \<and> snd r \<noteq> None) \<and>
         (\<forall>lnk info. Readlink (Filesystem s) (Join (Filesystem s) [''environments'', env, ''applications'', app, nm]) = Inr lnk
              \<and> Stat (Filesystem s) (Join (Filesystem s) [''environments'', env, ''applications'', app, lnk]) = Inr info
              \<longrightarrow> r = (Some (fst (ParseUint (fi_Name info))), snd (ParseUint (fi_Name info)))) \<and>
         (\<forall>v. r = (Some v, None) \<longrightarrow>
              (\<exists>lnk info.
                 Readlink (Filesystem s) (Join (Filesystem s) [''environments'', env, ''applications'', app, nm]) = Inr lnk \<and>
                 Stat (Filesystem s) (Join (Filesystem s) [''environments'', env, ''applications'', app, lnk]) = Inr info \<and>
                 ParseUint (fi_Name info) = (v, None)))"
proof -
  from assms have r: "r = readSymlink s env app nm"
    by (auto simp: GetEnvironmentApplicationVersion_def GetQueuedVersion_def)
  show ?thesis
    unfolding r
    using readSymlink_absent[of s env app nm] readSymlink_unreadable[of s env app nm]
      readSymlink_dangling[of s env app nm] readSymlink_present[of s env app nm]
      readSymlink_value[of s env app nm]
    by blast
qed

theorem version_links_resolve_witness:
  "GetEnvironmentApplicationVersion demoState ''env1'' ''app1'' = (Some 10, None) \<and>
   GetQueuedVersion demoState ''env1'' ''app1'' = (None, None) \<and>
   GetEnvironmentApplicationVersion strayState ''env1'' ''app1'' = (Some 5, None) \<and>
   GetQueuedVersion strayState ''env1'' ''app1'' = (Some 0, Some ErrSyntax)"
proof -
  have rl: "Readlink (Filesystem demoState)
              (Join (Filesystem demoState) [''environments'', ''env1'', ''applications'', ''app1'', ''version''])
            = Inr ''../../../applications/app1/releases/10''"
    by (simp add: demoState_def demoFS_def demoJoin_def)
  have st: "Stat (Filesystem demoState)
              (Join (Filesystem demoState)
                 [''environments'', ''env1'', ''applications'', ''app1'', ''../../../applications/app1/releases/10''])
            = Inr \<lparr>fi_Name = ''10'', fi_IsDir = True\<rparr>"
    by (simp add: demoState_def demoFS_def demoJoin_def)
  have pu: "ParseUint ''10'' = (10, None)"
    by (simp add: parse_defs)
  have ql: "Readlink (Filesystem demoState)
              (Join (Filesystem demoState) [''environments'', ''env1'', ''applications'', ''app1'', queueFileName])
            = Inl ErrNotExist"
    by (simp add: demoState_def demoFS_def demoJoin_def queueFileName_def)
  have ne: "errors_Is ErrNotExist ErrNotExist" by simp
  have srl: "Readlink (Filesystem strayState)
              (Join (Filesystem strayState) [''environments'', ''env1'', ''applications'', ''app1'', ''version''])
            = Inr ''deployed_by/5''"
    by (simp add: strayState_def strayFS_def demoFS_def demoJoin_def)
  have sst: "Stat (Filesystem strayState)
              (Join (Filesystem strayState) [''environments'', ''env1'', ''applications'', ''app1'', ''deployed_by/5''])
            = Inr \<lparr>fi_Name = ''5'', fi_IsDir = False\<rparr>"
    by (simp add: strayState_def strayFS_def demoFS_def demoJoin_def)
  have spu: "ParseUint ''5'' = (5, None)"
    by (simp add: parse_defs)
  have sql: "Readlink (Filesystem strayState)
              (Join (Filesystem strayState) [''environments'', ''env1'', ''applications'', ''app1'', queueFileName])
            = Inr ''../../../applications/app1/releases/README''"
    by (simp add: strayState_def strayFS_def demoFS_def demoJoin_def queueFileName_def)
  have sqs: "Stat (Filesystem strayState)
              (Join (Filesystem strayState)
                 [''environments'', ''env1'', ''applications'', ''app1'', ''../../../applications/app1/releases/README''])
            = Inr \<lparr>fi_Name = ''README'', fi_IsDir = False\<rparr>"
    by (simp add: strayState_def strayFS_def demoFS_def demoJoin_def)
  have sqp: "ParseUint ''README'' = (0, Some ErrSyntax)"
    by (simp add: parse_defs)
  have v: "GetEnvironmentApplicationVersion demoState ''env1'' ''app1'' =
             (Some (fst (ParseUint (fi_Name \<lparr>fi_Name = ''10'', fi_IsDir = True\<rparr>))),
              snd (ParseUint (fi_Name \<lparr>fi_Name = ''10'', fi_IsDir = True\<rparr>)))"
    using version_links_resolve[of "''version''" "GetEnvironmentApplicationVersion demoState ''env1'' ''app1''"
            demoState "''env1''" "''app1''"] rl st
    by blast
  have q: "GetQueuedVersion demoState ''env1'' ''app1'' = (None, None)"
    using version_links_resolve[of queueFileName "GetQueuedVersion demoState ''env1'' ''app1''"
            demoState "''env1''" "''app1''"] ql ne
    by blast
  have sv: "GetEnvironmentApplicationVersion strayState ''env1'' ''app1'' =
             (Some (fst (ParseUint (fi_Name \<lparr>fi_Name = ''5'', fi_IsDir = False\<rparr>))),
              snd (ParseUint (fi_Name \<lparr>fi_Name = ''5'', fi_IsDir = False\<rparr>)))"
    using version_links_resolve[of "''version''" "GetEnvironmentApplicationVersion strayState ''env1'' ''app1''"
            strayState "''env1''" "''app1''"] srl sst
    by blast
  have sq: "GetQueuedVersion strayState ''env1'' ''app1'' =
             (Some (fst (ParseUint (fi_Name \<lparr>fi_Name = ''README'', fi_IsDir = False\<rparr>))),
              snd (ParseUint (fi_Name \<lparr>fi_Name = ''README'', fi_IsDir = False\<rparr>)))"
    using version_links_resolve[of queueFileName "GetQueuedVersion strayState ''env1'' ''app1''"
            strayState "''env1''" "''app1''"] sql sqs
    by blast
  from v q sv sq show ?thesis by (simp add: pu spu sqp)
qed

section \<open>The user of a request\<close>

text \<open>
  C10: the user that \<open>GetUserOrDefault\<close> returns carries no role. Without a user, or with
  a user whose email is empty, its name and email are the default's; otherwise its email
  is the user's and its name is the user's name, or the user's email when the name is
  empty. So a default with a name and an email gives a result with both.
\<close>

theorem GetUserOrDefault_spec:
  "DexAuthContext (GetUserOrDefault u d) = None \<and>
   (case u of
      None \<Rightarrow> Name (GetUserOrDefault u d) = Name d \<and> Email (GetUserOrDefault u d) = Email d
    | Some usr \<Rightarrow>
        if Email usr = [] then Name (GetUserOrDefault u d) = Name d \<and> Email (GetUserOrDefault u d) = Email d
        else Email (GetUserOrDefault u d) = Email usr \<and>
             Name (GetUserOrDefault u d) = (if Name usr = [] then Email usr else Name usr)) \<and>
   (Name d \<noteq> [] \<and> Email d \<noteq> [] \<longrightarrow>
      Name (GetUserOrDefault u d) \<noteq> [] \<and> Email (GetUserOrDefault u d) \<noteq> [])"
  by (auto simp: GetUserOrDefault_def Let_def split: option.splits)

theorem GetUserOrDefault_spec_witness:
  "GetUserOrDefault (Some \<lparr>Email = ''a@b.c'', Name = [], DexAuthContext = Some \<lparr>Role = ''admin''\<rparr>\<rparr>)
     \<lparr>Email = ''k@example.com'', Name = ''kuberpult'', DexAuthContext = None\<rparr>
   = \<lparr>Email = ''a@b.c'', Name = ''a@b.c'', DexAuthContext = None\<rparr>"
  using GetUserOrDefault_spec[of "Some \<lparr>Email = ''a@b.c'', Name = [], DexAuthContext = Some \<lparr>Role = ''admin''\<rparr>\<rparr>"
          "\<lparr>Email = ''k@example.com'', Name = ''kuberpult'', DexAuthContext = None\<rparr>"]
  by (cases "GetUserOrDefault (Some \<lparr>Email = ''a@b.c'', Name = [], DexAuthContext = Some \<lparr>Role = ''admin''\<rparr>\<rparr>)
     \<lparr>Email = ''k@example.com'', Name = ''kuberpult'', DexAuthContext = None\<rparr>") simp

section \<open>Environment configurations in bootstrap mode\<close>

text \<open>
  C3, as stated, fails in its second half: in bootstrap mode a file that is present and
  malformed makes \<open>GetEnvironmentConfigs\<close> fail with the decoder's error, and
  \<^verbatim>\<open>errors.Is(err, invalidJson)\<close> is false for it.
\<close>

theorem bootstrap_malformed_counterexample:
  "GetEnvironmentConfigs demoReadFile demoUnmarshal demoDecode 0 bootstrapState
     = Inl (JsonError ''unexpected end of JSON input'') \<and>
   \<not> errors_Is (JsonError ''unexpected end of JSON input'') invalidJson"
  by (simp add: GetEnvironmentConfigs_def bootstrapState_def demoReadFile_def demoUnmarshal_def)

text \<open>
  C3, amended: in bootstrap mode \<open>GetEnvironmentConfigs\<close> returns the empty map when the
  file is absent; when the file is present and does not decode, it fails with the error
  of the JSON decoder as it is, which is not the invalid-JSON error of the writer.
\<close>

theorem GetEnvironmentConfigs_bootstrap:
  assumes "BootstrapMode s"
  shows "(\<forall>err. readFile (EnvironmentConfigsPath s) = Inl err \<and> errors_Is err ErrNotExist \<longrightarrow>
            GetEnvironmentConfigs readFile unmarshal decode zero s = Inr Map.empty) \<and>
         (\<forall>buf msg. readFile (EnvironmentConfigsPath s) = Inr buf \<and> unmarshal buf = Inl msg \<longrightarrow>
            GetEnvironmentConfigs readFile unmarshal decode zero s = Inl (JsonError msg) \<and>
            \<not> errors_Is (JsonError msg) invalidJson)"
  using assms by (simp add: GetEnvironmentConfigs_def)

theorem GetEnvironmentConfigs_bootstrap_witness:
  "GetEnvironmentConfigs demoReadFile demoUnmarshal demoDecode 0 bootstrapState
     = Inl (JsonError ''unexpected end of JSON input'') \<and>
   GetEnvironmentConfigs (\<lambda>p. Inl ErrNotExist) demoUnmarshal demoDecode 0 bootstrapState = Inr Map.empty"
proof -
  have b: "BootstrapMode bootstrapState" by (simp add: bootstrapState_def)
  have rf: "demoReadFile (EnvironmentConfigsPath bootstrapState) = Inr ''{''"
    by (simp add: bootstrapState_def demoReadFile_def)
  have um: "demoUnmarshal ''{'' = Inl ''unexpected end of JSON input''"
    by (simp add: demoUnmarshal_def)
  have ne: "errors_Is ErrNotExist ErrNotExist" by simp
  have m: "GetEnvironmentConfigs demoReadFile demoUnmarshal demoDecode 0 bootstrapState
             = Inl (JsonError ''unexpected end of JSON input'')"
    using GetEnvironmentConfigs_bootstrap[OF b, of demoReadFile demoUnmarshal demoDecode 0] rf um by blast
  have a: "GetEnvironmentConfigs (\<lambda>p. Inl ErrNotExist) demoUnmarshal demoDecode 0 bootstrapState = Inr Map.empty"
    using GetEnvironmentConfigs_bootstrap[OF b, of "\<lambda>p. Inl ErrNotExist" demoUnmarshal demoDecode 0] ne by blast
  from m a show ?thesis by simp
qed

section \<open>The webhook's retries\<close>

lemma argoLoop_step:
  "i \<le> maxArgoRequests \<Longrightarrow> j = i + 1 \<Longrightarrow> ms = 100 * i \<Longrightarrow>
   argoLoop post i lg =
     (if retried (post i)
      then argoLoop post j (lg\<lparr>attempts := attempts lg @ [i], sleeps := sleeps lg @ [ms]\<rparr>)
      else lg\<lparr>attempts := attempts lg @ [i], success := True\<rparr>)"
  by (subst argoLoop.simps)
     (auto simp: retried_def doWebhookPostRequest_def split: http_outcome.splits prod.splits)

lemma argoLoop_end: "i > maxArgoRequests \<Longrightarrow> argoLoop post i lg = lg"
  by (subst argoLoop.simps) simp

lemma webhookRetries_cases:
  "webhookRetries post =
     (if \<not> retried (post 1) then \<lparr>attempts = [1], sleeps = [], success = True\<rparr>
      else if \<not> retried (post 2) then \<lparr>attempts = [1, 2], sleeps = [100], success = True\<rparr>
      else if \<not> retried (post 3) then \<lparr>attempts = [1, 2, 3], sleeps = [100, 200], success = True\<rparr>
      else \<lparr>attempts = [1, 2, 3], sleeps = [100, 200, 300], success = False\<rparr>)"
proof -
  have e1: "argoLoop post 1 lg =
     (if retried (post 1)
      then argoLoop post 2 (lg\<lparr>attempts := attempts lg @ [1], sleeps := sleeps lg @ [100]\<rparr>)
      else lg\<lparr>attempts := attempts lg @ [1], success := True\<rparr>)" for lg
    by (rule argoLoop_step) (simp_all add: maxArgoRequests_def)
  have e2: "argoLoop post 2 lg =
     (if retried (post 2)
      then argoLoop post 3 (lg\<lparr>attempts := attempts lg @ [2], sleeps := sleeps lg @ [200]\<rparr>)
      else lg\<lparr>attempts := attempts lg @ [2], success := True\<rparr>)" for lg
    by (rule argoLoop_step) (simp_all add: maxArgoRequests_def)
  have e3: "argoLoop post 3 lg =
     (if retried (post 3)
      then argoLoop post 4 (lg\<lparr>attempts := attempts lg @ [3], sleeps := sleeps lg @ [300]\<rparr>)
      else lg\<lparr>attempts := attempts lg @ [3], success := True\<rparr>)" for lg
    by (rule argoLoop_step) (simp_all add: maxArgoRequests_def)
  have e4: "argoLoop post 4 lg = lg" for lg
    by (rule argoLoop_end) (simp add: maxArgoRequests_def)
  show ?thesis
    unfolding webhookRetries_def e1 e2 e3 e4 by simp
qed

text \<open>
  C5, as stated, fails: a response with status 600 is neither 2xx nor 5xx, and the
  dispatcher retries it like a 5xx, three tries in all.
\<close>

theorem webhook_other_status_counterexample:
  "webhookRetries always600 = \<lparr>attempts = [1, 2, 3], sleeps = [100, 200, 300], success = False\<rparr>"
  by (simp add: webhookRetries_cases retried_def always600_def)

text \<open>
  C5, amended: a try is retried exactly when its response has a status code of 500 or
  above (the request itself then returns an error with the retry flag); there are at
  most 3 tries, and the dispatcher sleeps 100 times the try's number in milliseconds
  after each retried try. Every other outcome ends the loop at that try with no retry and
  with the success flag set: status 200, for which alone the request returns no error,
  any other 2xx, and any other status below 500.
\<close>

theorem webhook_retry_policy:
  "(\<forall>out. retried out \<longleftrightarrow> fst (doWebhookPostRequest out) \<noteq> None \<and> snd (doWebhookPostRequest out)) \<and>
   (\<forall>st. retried (Response st) \<longleftrightarrow> st \<ge> 500) \<and>
   (\<forall>st. fst (doWebhookPostRequest (Response st)) = None \<longleftrightarrow> st = 200) \<and>
   webhookRetries post =
     (if \<not> retried (post 1) then \<lparr>attempts = [1], sleeps = [], success = True\<rparr>
      else if \<not> retried (post 2) then \<lparr>attempts = [1, 2], sleeps = [100], success = True\<rparr>
      else if \<not> retried (post 3) then \<lparr>attempts = [1, 2, 3], sleeps = [100, 200], success = True\<rparr>
      else \<lparr>attempts = [1, 2, 3], sleeps = [100, 200, 300], success = False\<rparr>)"
proof -
  have a: "retried out \<longleftrightarrow> fst (doWebhookPostRequest out) \<noteq> None \<and> snd (doWebhookPostRequest out)" for out
    by (cases out) (auto simp: retried_def doWebhookPostRequest_def)
  have b: "retried (Response st) \<longleftrightarrow> st \<ge> 500" for st
    by (simp add: retried_def)
  have c: "fst (doWebhookPostRequest (Response st)) = None \<longleftrightarrow> st = 200" for st
    by (auto simp: doWebhookPostRequest_def validResponseCodes_def)
  from a b c webhookRetries_cases[of post] show ?thesis by blast
qed

theorem webhook_retry_policy_witness:
  "webhookRetries (\<lambda>i. if i = 1 then Response 503 else Response 204)
     = \<lparr>attempts = [1, 2], sleeps = [100], success = True\<rparr>"
proof -
  have r: "retried (Response 503)" "\<not> retried (Response 204)"
    by (simp_all add: retried_def)
  from webhook_retry_policy[of "\<lambda>i. if i = 1 then Response 503 else Response 204"]
  have "webhookRetries (\<lambda>i. if i = 1 then Response 503 else Response 204) =
     (if \<not> retried (Response 503) then \<lparr>attempts = [1], sleeps = [], success = True\<rparr>
      else if \<not> retried (Response 204) then \<lparr>attempts = [1, 2], sleeps = [100], success = True\<rparr>
      else \<lparr>attempts = [1, 2, 3], sleeps = [100, 200, 300], success = False\<rparr>)"
    by simp
  with r show ?thesis by simp
qed

section \<open>The apply pass\<close>

lemmas demo_defs = demoConfig_def remoteCommit_def demoRepo_def racedRepo_def protectedRepo_def demoUser_def
  liveCtx_def doneCtx_def releaseT_def deployT_def failT_def jsonT_def world0_def

lemmas el_defs = el1_def lockedEl_def jsonEl_def deployEl_def cancelledEl_def

lemmas step_defs = ApplyTransformers_def ApplyTransformersInternal_def StateAt_def CreateCommitFromIds_def
  ReadUserFromContext_def CombineArray_def Combine_def emptyResult_def AddAppEnv_def AddRootApp_def Let_def

lemma Combine_None: "Combine ch None = ch"
  by (simp add: Combine_def)

lemma applyElements_plain:
  "applyElements r False (kept @ todo) (length kept) ch w = plainPass r kept todo ch w"
proof (induction todo arbitrary: kept ch w)
  case Nil
  show ?case by (subst applyElements.simps) simp
next
  case (Cons e es)
  have step1: "\<And>sub w1. applyElements r False (kept @ e # es) (Suc (length kept)) (Combine ch (Some sub)) w1
        = plainPass r (kept @ [e]) es (Combine ch (Some sub)) w1"
    using Cons.IH[of "kept @ [e]"] by simp
  show ?case
    by (subst applyElements.simps)
       (simp add: step1 Cons.IH Combine_None nth_append split: prod.splits sum.splits)
qed

lemma applyElements_recovering:
  "applyElements r True (kept @ todo) (length kept) ch w = recoveringPass r kept todo ch w"
proof (induction todo arbitrary: kept ch w)
  case Nil
  show ?case by (subst applyElements.simps) simp
next
  case (Cons e es)
  have step1: "\<And>sub w1. applyElements r True (kept @ e # es) (Suc (length kept)) (Combine ch (Some sub)) w1
        = recoveringPass r (kept @ [e]) es (Combine ch (Some sub)) w1"
    using Cons.IH[of "kept @ [e]"] by simp
  have restart: "\<And>w2. applyElements r False (kept @ e # es) 0 emptyResult w2
        = plainPass r [] (kept @ e # es) emptyResult w2"
    using applyElements_plain[of r "[]" "kept @ e # es"] by simp
  show ?case
    by (subst applyElements.simps)
       (simp add: step1 restart Cons.IH Combine_None nth_append split: prod.splits sum.splits option.splits)
qed

lemma applyElements_True: "applyElements r True els 0 ch w = recoveringPass r [] els ch w"
  using applyElements_recovering[of r "[]" els ch w] by simp

lemma applyElements_False: "applyElements r False els 0 ch w = plainPass r [] els ch w"
  using applyElements_plain[of r "[]" els ch w] by simp

lemmas run_defs = ProcessQueueOnce_def drainQueue_def applyElements_True applyElements_False
  Push_def pushOnce_def span_def send_def deferred_def postPush_def Notify_def sendWebhookToArgoCd_def
  FetchAndReset_def defaultPushUpdate_def webhookRetries_cases retried_def



section \<open>The commit of an apply\<close>

lemma runTransformers_chain:
  "runTransformers c ts st m ch = Inr (m', st', ch') \<Longrightarrow>
   Commit st' = Commit st \<and>
   (\<exists>msgs states.
      m' = m @ msgs \<and> length msgs = length ts \<and> length states = Suc (length ts) \<and>
      states ! 0 = st \<and> states ! length ts = st' \<and>
      (\<forall>i < length ts. \<exists>sub fs'. (ts ! i) c (states ! i) = Inr (msgs ! i, sub, fs') \<and>
                                  states ! Suc i = (states ! i)\<lparr>Filesystem := fs'\<rparr>))"
proof (induction ts arbitrary: st m ch)
  case Nil
  then show ?case by (auto intro: exI[of _ "[st]"])
next
  case (Cons t ts)
  from Cons.prems obtain msg sub fs' where
    t: "t c st = Inr (msg, sub, fs')" and
    rest: "runTransformers c ts (st\<lparr>Filesystem := fs'\<rparr>) (m @ [msg]) (ch @ [sub]) = Inr (m', st', ch')"
    by (auto split: sum.splits prod.splits)
  from Cons.IH[OF rest] obtain msgs states where
    c: "Commit st' = Commit (st\<lparr>Filesystem := fs'\<rparr>)" and
    m: "m' = (m @ [msg]) @ msgs" and l: "length msgs = length ts" "length states = Suc (length ts)" and
    s0: "states ! 0 = st\<lparr>Filesystem := fs'\<rparr>" and sn: "states ! length ts = st'" and
    steps: "\<forall>i < length ts. \<exists>sub fs'. (ts ! i) c (states ! i) = Inr (msgs ! i, sub, fs') \<and>
                                  states ! Suc i = (states ! i)\<lparr>Filesystem := fs'\<rparr>"
    by blast
  have "\<forall>i < length (t # ts). \<exists>sub fs'. ((t # ts) ! i) c ((st # states) ! i) = Inr ((msg # msgs) ! i, sub, fs') \<and>
                                  (st # states) ! Suc i = ((st # states) ! i)\<lparr>Filesystem := fs'\<rparr>"
  proof (intro allI impI)
    fix i assume "i < length (t # ts)"
    then show "\<exists>sub fs'. ((t # ts) ! i) c ((st # states) ! i) = Inr ((msg # msgs) ! i, sub, fs') \<and>
                                  (st # states) ! Suc i = ((st # states) ! i)\<lparr>Filesystem := fs'\<rparr>"
      using t s0 steps by (cases i) auto
  qed
  moreover have "m' = m @ (msg # msgs)" using m by simp
  moreover have "length (msg # msgs) = length (t # ts)" "length (st # states) = Suc (length (t # ts))"
    using l by simp_all
  moreover have "(st # states) ! 0 = st" "(st # states) ! length (t # ts) = st'" using sn by simp_all
  moreover have "Commit st' = Commit st" using c by simp
  ultimately show ?case by blast
qed

lemma StateAt_Commit: "StateAt r w = Inr st \<Longrightarrow> Commit st = head w"
  by (auto simp: StateAt_def split: option.splits if_splits)

text \<open>
  C8: a successful \<open>ApplyTransformers\<close> adds exactly one commit and makes it the branch
  head. Its committer is the configured identity, its author the user of the context,
  its parent the branch head before (none without one), and its message the messages of
  the transformers, each run on the State its predecessors left, joined by newlines. Its
  tree is what the tree builder inserted after \<open>afterTransform\<close>.
\<close>

theorem ApplyTransformers_commit:
  assumes "ApplyTransformers r c ts w = (Inr res, w')"
  shows "\<exists>user st msgs states fs1 treeId.
           ctx_User c = Some user \<and> StateAt r w = Inr st \<and>
           length msgs = length ts \<and> length states = Suc (length ts) \<and> states ! 0 = st \<and>
           (\<forall>i < length ts. \<exists>sub fs'. (ts ! i) c (states ! i) = Inr (msgs ! i, sub, fs') \<and>
                                       states ! Suc i = (states ! i)\<lparr>Filesystem := fs'\<rparr>) \<and>
           afterTransform r c (states ! length ts) = Inr fs1 \<and> Insert r fs1 = Inr treeId \<and>
           odb w' = odb w @ [\<lparr>author = \<lparr>sig_Name = Name user, sig_Email = Email user\<rparr>,
                              committer = \<lparr>sig_Name = CommitterName (config r), sig_Email = CommitterEmail (config r)\<rparr>,
                              message = strings_Join msgs [CHR 0x0A],
                              tree = treeId,
                              parent = head w\<rparr>] \<and>
           head w' = Some (length (odb w)) \<and>
           Commits res = Some \<lparr>Previous = head w, Current = length (odb w)\<rparr>"
proof -
  from assms obtain st where st: "StateAt r w = Inr st"
    by (auto simp: ApplyTransformers_def ApplyTransformersInternal_def split: sum.splits)
  from assms st obtain commitMsg state changes where
    run: "runTransformers c ts st [] [] = Inr (commitMsg, state, changes)"
    by (auto simp: ApplyTransformers_def ApplyTransformersInternal_def split: sum.splits)
  from assms st run obtain user fs1 treeId where
    u: "ctx_User c = Some user" and
    at: "afterTransform r c state = Inr fs1" and ins: "Insert r fs1 = Inr treeId" and
    w': "w' = w\<lparr>odb := odb w @ [\<lparr>author = \<lparr>sig_Name = Name user, sig_Email = Email user\<rparr>,
                              committer = \<lparr>sig_Name = CommitterName (config r), sig_Email = CommitterEmail (config r)\<rparr>,
                              message = strings_Join commitMsg [CHR 0x0A],
                              tree = treeId,
                              parent = Commit state\<rparr>], head := Some (length (odb w))\<rparr>" and
    res: "res = (CombineArray changes)\<lparr>Commits := Some \<lparr>Previous = Commit state, Current = length (odb w)\<rparr>\<rparr>"
    by (auto simp: ApplyTransformers_def ApplyTransformersInternal_def CreateCommitFromIds_def
          ReadUserFromContext_def Let_def split: sum.splits option.splits prod.splits)
  from runTransformers_chain[OF run] obtain msgs states where
    c: "Commit state = Commit st" and m: "commitMsg = msgs" and
    l: "length msgs = length ts" "length states = Suc (length ts)" "states ! 0 = st"
       "states ! length ts = state" and
    steps: "\<forall>i < length ts. \<exists>sub fs'. (ts ! i) c (states ! i) = Inr (msgs ! i, sub, fs') \<and>
                                  states ! Suc i = (states ! i)\<lparr>Filesystem := fs'\<rparr>"
    by auto
  have p: "Commit state = head w" using c StateAt_Commit[OF st] by simp
  show ?thesis
    using u st l steps at ins w' res m p
    by (intro exI[of _ user] exI[of _ st] exI[of _ msgs] exI[of _ states] exI[of _ fs1] exI[of _ treeId]) simp
qed

theorem ApplyTransformers_commit_witness:
  "odb (snd (ApplyTransformers demoRepo liveCtx [releaseT, deployT] world0)) =
     [\<lparr>author = \<lparr>sig_Name = ''dev'', sig_Email = ''dev@example.com''\<rparr>,
       committer = \<lparr>sig_Name = ''kuberpult'', sig_Email = ''kuberpult@example.com''\<rparr>,
       message = ''create release'' @ [CHR 0x0A] @ ''deploy app1'', tree = 2, parent = None\<rparr>]"
proof -
  have run: "ApplyTransformers demoRepo liveCtx [releaseT, deployT] world0 =
    (Inr \<lparr>ChangedApps = [\<lparr>App = ''app1'', Env = ''env1''\<rparr>], DeletedRootApps = [],
          Commits = Some \<lparr>Previous = None, Current = 0\<rparr>\<rparr>,
     world0\<lparr>odb := [\<lparr>author = \<lparr>sig_Name = ''dev'', sig_Email = ''dev@example.com''\<rparr>,
                      committer = \<lparr>sig_Name = ''kuberpult'', sig_Email = ''kuberpult@example.com''\<rparr>,
                      message = ''create release'' @ [CHR 0x0A] @ ''deploy app1'', tree = 2, parent = None\<rparr>],
            head := Some 0\<rparr>)"
    by (simp add: demo_defs step_defs)
  from ApplyTransformers_commit[OF run] show ?thesis
    by (simp add: run)
qed

section \<open>The events of the writer's steps\<close>

lemma trace_ApplyTransformers: "ApplyTransformers r c ts w = (res, w1) \<Longrightarrow> trace w1 = trace w"
  by (auto simp: ApplyTransformers_def CreateCommitFromIds_def Let_def
        split: sum.splits option.splits prod.splits)

lemma plainPass_result:
  "plainPass r kept todo ch w = (els, err, chs, w') \<Longrightarrow>
   err = None \<and> (\<exists>sends. trace w' = trace w @ sends \<and> list_all isSend sends)"
proof (induction todo arbitrary: kept ch w)
  case Nil
  then show ?case by simp
next
  case (Cons e es)
  show ?case
  proof (cases "ApplyTransformers r (ctx e) (transformers e) w")
    case (Pair res w1)
    note tr = trace_ApplyTransformers[OF Pair]
    show ?thesis
    proof (cases res)
      case (Inr sub)
      with Pair Cons.prems have "plainPass r (kept @ [e]) es (Combine ch (Some sub)) w1 = (els, err, chs, w')"
        by simp
      from Cons.IH[OF this] tr show ?thesis by simp
    next
      case (Inl applyErr)
      with Pair Cons.prems have "plainPass r kept es ch (send (result e) (Some applyErr) w1) = (els, err, chs, w')"
        by simp
      from Cons.IH[OF this] obtain sends where
        "err = None" "trace w' = trace (send (result e) (Some applyErr) w1) @ sends" "list_all isSend sends"
        by blast
      then have "err = None \<and> trace w' = trace w @ (EvSend (result e) (Some applyErr) # sends) \<and>
                 list_all isSend (EvSend (result e) (Some applyErr) # sends)"
        using tr by (simp add: send_def isSend_def)
      then show ?thesis by blast
    qed
  qed
qed

lemma trace_pushOnce:
  "trace (snd (pushOnce r cb w)) = trace w @ [EvSpan ''Push'', EvPushAction (fst (pushOnce r cb w))]"
  by (simp add: pushOnce_def span_def Let_def)

lemma Retry_last:
  "\<exists>earlier. trace (snd (Retry r cb n w)) = trace w @ earlier @ [EvSpan ''Push'', EvPushAction (fst (Retry r cb n w))] \<and>
      list_all isPushAttempt earlier \<and>
      EvPushAction None \<notin> set earlier \<and> EvPushAction (Some (GitError ErrorCodeNonFastForward)) \<notin> set earlier"
proof (induction n arbitrary: w)
  case 0
  show ?case using trace_pushOnce[of r cb w] by simp
next
  case (Suc n)
  obtain err w1 where p: "pushOnce r cb w = (err, w1)" by (cases "pushOnce r cb w")
  with trace_pushOnce[of r cb w] have t1: "trace w1 = trace w @ [EvSpan ''Push'', EvPushAction err]" by simp
  show ?case
  proof (cases "err = None \<or> err = Some (GitError ErrorCodeNonFastForward)")
    case True
    with p have "Retry r cb (Suc n) w = (err, w1)" by auto
    with t1 show ?thesis by simp
  next
    case False
    with p have eq: "Retry r cb (Suc n) w = Retry r cb n w1" by (auto split: option.splits)
    from Suc.IH[of w1] obtain earlier where
      e: "trace (snd (Retry r cb n w1)) = trace w1 @ earlier @ [EvSpan ''Push'', EvPushAction (fst (Retry r cb n w1))]"
         "list_all isPushAttempt earlier" "EvPushAction None \<notin> set earlier"
         "EvPushAction (Some (GitError ErrorCodeNonFastForward)) \<notin> set earlier" by blast
    let ?earlier = "[EvSpan ''Push'', EvPushAction err] @ earlier"
    have "trace (snd (Retry r cb (Suc n) w)) = trace w @ ?earlier @ [EvSpan ''Push'', EvPushAction (fst (Retry r cb (Suc n) w))] \<and>
          list_all isPushAttempt ?earlier \<and> EvPushAction None \<notin> set ?earlier \<and>
          EvPushAction (Some (GitError ErrorCodeNonFastForward)) \<notin> set ?earlier"
      using e t1 eq False by (auto simp: isPushAttempt_def)
    then show ?thesis by blast
  qed
qed

lemma Push_last:
  "Push r cb w = (perr, w') \<Longrightarrow>
   \<exists>earlier. trace w' = trace w @ EvSpan ''Apply'' # earlier @ [EvSpan ''Push'', EvPushAction perr] \<and>
      list_all isPushAttempt earlier \<and>
      EvPushAction None \<notin> set earlier \<and> EvPushAction (Some (GitError ErrorCodeNonFastForward)) \<notin> set earlier"
  using Retry_last[of r cb "backOffProvider r" "span ''Apply'' w"]
  by (simp add: Push_def span_def)



lemma trace_FetchAndReset: "trace (snd (FetchAndReset r w)) = trace w @ [EvFetch]"
  by (simp add: FetchAndReset_def Let_def split: fetch_outcome.splits)

lemma trace_deferred: "trace (deferred els err w) = trace w @ map (\<lambda>el. EvSend (result el) err) els"
  unfolding deferred_def
  by (induction els arbitrary: w) (simp_all add: send_def)

lemma trace_postPush: "trace (postPush r changes w) = trace w @ postPushEvents r changes"
  by (simp add: postPush_def postPushEvents_def Notify_def sendWebhookToArgoCd_def span_def Let_def)

lemma ProcessQueueOnce_fetch_failed:
  assumes "ctx_Err (ctx e) = None" "drainQueue w0 = (drained, w1)"
    "applyElements r True (e # drained) 0 emptyResult (w1\<lparr>pushSuccess := True\<rparr>) = (elements, None, changes, w3)"
    "elements \<noteq> []" "Push r callback w3 = (Some (GitError ErrorCodeNonFastForward), w4)"
    "FetchAndReset r w4 = (Some ferr, w5)"
  shows "ProcessQueueOnce r callback e w0 = deferred elements (Some ferr) w5"
  using assms by (simp add: ProcessQueueOnce_def)

lemma ProcessQueueOnce_after_second_push:
  assumes "ctx_Err (ctx e) = None" "drainQueue w0 = (drained, w1)"
    "applyElements r True (e # drained) 0 emptyResult (w1\<lparr>pushSuccess := True\<rparr>) = (elements, None, changes, w3)"
    "elements \<noteq> []" "Push r callback w3 = (Some (GitError ErrorCodeNonFastForward), w4)"
    "FetchAndReset r w4 = (None, w5)"
    "applyElements r False elements 0 emptyResult w5 = (elements2, err2, changes2, w6)"
    "elements2 \<noteq> []" "Push r callback w6 = (pushErr, w7)"
  shows "ProcessQueueOnce r callback e w0 =
           deferred elements2 (map_option InternalError pushErr) (postPush r changes w7)"
proof -
  from assms(7) have "plainPass r [] elements emptyResult w5 = (elements2, err2, changes2, w6)"
    by (simp add: applyElements_False)
  from plainPass_result[OF this] have "err2 = None" by blast
  with assms show ?thesis by (simp add: ProcessQueueOnce_def)
qed

section \<open>Recovery from a push that is not a fast-forward\<close>



section \<open>Webhook and notification within an iteration\<close>

lemma isSend_quiet: "list_all isSend evs \<Longrightarrow> list_all quiet evs"
  by (induction evs) (auto simp: isSend_def quiet_def split: event.splits)

lemma isPushAttempt_quiet: "list_all isPushAttempt evs \<Longrightarrow> list_all quiet evs"
  by (induction evs) (auto simp: isPushAttempt_def quiet_def split: event.splits)

lemma quietly_refl: "quietly w w"
  by (simp add: quietly_def)

lemma quietly_same_trace: "trace w' = trace w \<Longrightarrow> quietly w w'"
  by (simp add: quietly_def)

lemma quietly_trans:
  assumes "quietly a b" "quietly b c"
  shows "quietly a c"
proof -
  from assms obtain e1 e2 where
    "trace b = trace a @ e1" "list_all quiet e1" "trace c = trace b @ e2" "list_all quiet e2"
    unfolding quietly_def by blast
  then have "trace c = trace a @ (e1 @ e2) \<and> list_all quiet (e1 @ e2)" by simp
  then show ?thesis unfolding quietly_def by blast
qed

lemma quietly_pushing:
  assumes "quietly a b" "pushing b c"
  shows "pushing a c"
proof -
  from assms obtain e1 e2 x where
    "trace b = trace a @ e1" "list_all quiet e1" "trace c = trace b @ e2" "list_all quiet e2"
    "EvPushAction x \<in> set e2"
    unfolding quietly_def pushing_def by blast
  then have "trace c = trace a @ (e1 @ e2) \<and> list_all quiet (e1 @ e2) \<and> EvPushAction x \<in> set (e1 @ e2)"
    by simp
  then show ?thesis unfolding pushing_def by blast
qed

lemma pushing_quietly:
  assumes "pushing a b" "quietly b c"
  shows "pushing a c"
proof -
  from assms obtain e1 e2 x where
    "trace b = trace a @ e1" "list_all quiet e1" "trace c = trace b @ e2" "list_all quiet e2"
    "EvPushAction x \<in> set e1"
    unfolding quietly_def pushing_def by blast
  then have "trace c = trace a @ (e1 @ e2) \<and> list_all quiet (e1 @ e2) \<and> EvPushAction x \<in> set (e1 @ e2)"
    by simp
  then show ?thesis unfolding pushing_def by blast
qed

lemma pushing_imp_quietly: "pushing a b \<Longrightarrow> quietly a b"
  unfolding pushing_def quietly_def by blast

lemma drainLoop_trace:
  "drainLoop q els tr = (els', tr') \<Longrightarrow> \<exists>sends. tr' = tr @ sends \<and> list_all isSend sends"
proof (induction q arbitrary: els tr)
  case Nil
  then show ?case by simp
next
  case (Cons f fs)
  show ?case
  proof (cases "ctx_Err (ctx f)")
    case None
    with Cons.prems have "drainLoop fs (els @ [f]) tr = (els', tr')" by simp
    from Cons.IH[OF this] show ?thesis .
  next
    case (Some cerr)
    with Cons.prems have "drainLoop fs els (tr @ [EvSend (result f) (Some cerr)]) = (els', tr')" by simp
    from Cons.IH[OF this] obtain sends where
      "tr' = (tr @ [EvSend (result f) (Some cerr)]) @ sends" "list_all isSend sends" by blast
    then have "tr' = tr @ (EvSend (result f) (Some cerr) # sends) \<and> list_all isSend (EvSend (result f) (Some cerr) # sends)"
      by (simp add: isSend_def)
    then show ?thesis by blast
  qed
qed

lemma quietly_drainQueue:
  assumes "drainQueue w = (drained, w1)"
  shows "quietly w w1"
proof -
  obtain els tr where l: "drainLoop (queue w) [] (trace w) = (els, tr)" by (cases "drainLoop (queue w) [] (trace w)")
  with assms have "trace w1 = tr" by (auto simp: drainQueue_def)
  with drainLoop_trace[OF l] show ?thesis unfolding quietly_def using isSend_quiet by blast
qed

lemma quietly_plainPass: "plainPass r kept todo ch w = (els, err, chs, w') \<Longrightarrow> quietly w w'"
  using plainPass_result[of r kept todo ch w els err chs w'] isSend_quiet unfolding quietly_def by blast

lemma quietly_send: "quietly w (send c err w)"
  by (simp add: quietly_def send_def quiet_def)

lemma quietly_FetchAndReset: "FetchAndReset r w = (x, w') \<Longrightarrow> quietly w w'"
  using trace_FetchAndReset[of r w] by (simp add: quietly_def quiet_def)

lemma quietly_recoveringPass: "recoveringPass r kept todo ch w = (els, err, chs, w') \<Longrightarrow> quietly w w'"
proof (induction todo arbitrary: kept ch w)
  case Nil
  then show ?case by (simp add: quietly_refl)
next
  case (Cons e es)
  show ?case
  proof (cases "ApplyTransformers r (ctx e) (transformers e) w")
    case (Pair res w1)
    have q1: "quietly w w1" using trace_ApplyTransformers[OF Pair] by (rule quietly_same_trace)
    show ?thesis
    proof (cases res)
      case (Inr sub)
      with Pair Cons.prems have "recoveringPass r (kept @ [e]) es (Combine ch (Some sub)) w1 = (els, err, chs, w')"
        by simp
      from quietly_trans[OF q1 Cons.IH[OF this]] show ?thesis .
    next
      case (Inl applyErr)
      show ?thesis
      proof (cases "errors_Is applyErr invalidJson")
        case False
        with Inl Pair Cons.prems
        have "recoveringPass r kept es ch (send (result e) (Some applyErr) w1) = (els, err, chs, w')" by simp
        from quietly_trans[OF quietly_trans[OF q1 quietly_send] Cons.IH[OF this]] show ?thesis .
      next
        case True
        obtain x w2 where f: "FetchAndReset r w1 = (x, w2)" by (cases "FetchAndReset r w1")
        have q2: "quietly w w2" using quietly_trans[OF q1 quietly_FetchAndReset[OF f]] .
        show ?thesis
        proof (cases x)
          case (Some ferr)
          with True Inl Pair f Cons.prems have "w' = w2" by simp
          with q2 show ?thesis by simp
        next
          case None
          with True Inl Pair f Cons.prems
          have "plainPass r [] (kept @ e # es) emptyResult w2 = (els, err, chs, w')" by simp
          from quietly_trans[OF q2 quietly_plainPass[OF this]] show ?thesis .
        qed
      qed
    qed
  qed
qed

lemma quietly_applyElements: "applyElements r allow els 0 ch w = (els', err, chs, w') \<Longrightarrow> quietly w w'"
  by (cases allow) (auto simp: applyElements_True applyElements_False
        intro: quietly_recoveringPass quietly_plainPass)

lemma pushing_Push:
  assumes "Push r cb w = (perr, w')"
  shows "pushing w w'"
proof -
  from Push_last[OF assms] obtain earlier where
    t: "trace w' = trace w @ EvSpan ''Apply'' # earlier @ [EvSpan ''Push'', EvPushAction perr]"
    and a: "list_all isPushAttempt earlier" by blast
  let ?evs = "EvSpan ''Apply'' # earlier @ [EvSpan ''Push'', EvPushAction perr]"
  have "list_all quiet ?evs" using isPushAttempt_quiet[OF a] by (simp add: quiet_def)
  moreover have "EvPushAction perr \<in> set ?evs" by simp
  ultimately show ?thesis using t unfolding pushing_def by blast
qed

lemma shape_stopped:
  fixes r :: "'fs repository"
  assumes "quietly w0 W"
  shows "\<exists>pre post. trace (deferred els err W) = trace w0 @ pre @ post \<and> list_all quiet pre \<and>
           (post = [] \<or> ((\<exists>x. EvPushAction x \<in> set pre) \<and>
              (\<exists>changes (els :: 'fs element list) err.
                  post = postPushEvents r changes @ map (\<lambda>el. EvSend (result el) err) els)))"
proof -
  from assms obtain evs where e: "trace W = trace w0 @ evs" "list_all quiet evs" unfolding quietly_def by blast
  let ?pre = "evs @ map (\<lambda>el. EvSend (result el) err) els"
  have "list_all quiet (map (\<lambda>el. EvSend (result el) err) els)"
    by (induction els) (simp_all add: quiet_def)
  with e have "trace (deferred els err W) = trace w0 @ ?pre @ [] \<and> list_all quiet ?pre"
    by (simp add: trace_deferred)
  then show ?thesis by blast
qed

lemma shape_pushed:
  fixes r :: "'fs repository"
  assumes "pushing w0 W"
  shows "\<exists>pre post. trace (deferred els err (postPush r changes W)) = trace w0 @ pre @ post \<and> list_all quiet pre \<and>
           (post = [] \<or> ((\<exists>x. EvPushAction x \<in> set pre) \<and>
              (\<exists>changes (els :: 'fs element list) err.
                  post = postPushEvents r changes @ map (\<lambda>el. EvSend (result el) err) els)))"
proof -
  from assms obtain evs x where e: "trace W = trace w0 @ evs" "list_all quiet evs" "EvPushAction x \<in> set evs"
    unfolding pushing_def by blast
  let ?post = "postPushEvents r changes @ map (\<lambda>el. EvSend (result el) err) els"
  from e have "trace (deferred els err (postPush r changes W)) = trace w0 @ evs @ ?post"
    by (simp add: trace_deferred trace_postPush)
  moreover have "\<exists>changes' (els' :: 'fs element list) err'.
                   ?post = postPushEvents r changes' @ map (\<lambda>el. EvSend (result el) err') els'"
    by (rule exI[of _ changes], rule exI[of _ els], rule exI[of _ err]) (rule refl)
  ultimately have "trace (deferred els err (postPush r changes W)) = trace w0 @ evs @ ?post \<and> list_all quiet evs \<and>
           (?post = [] \<or> ((\<exists>x. EvPushAction x \<in> set evs) \<and>
              (\<exists>changes (els :: 'fs element list) err.
                  ?post = postPushEvents r changes @ map (\<lambda>el. EvSend (result el) err) els)))"
    using e by blast
  then show ?thesis
    by - (rule exI[of _ evs], rule exI[of _ ?post], assumption)
qed

lemma ProcessQueueOnce_shape:
  fixes r :: "'fs repository"
  shows "\<exists>pre post. trace (ProcessQueueOnce r callback e w0) = trace w0 @ pre @ post \<and> list_all quiet pre \<and>
           (post = [] \<or> ((\<exists>x. EvPushAction x \<in> set pre) \<and>
              (\<exists>changes (els :: 'fs element list) err.
                  post = postPushEvents r changes @ map (\<lambda>el. EvSend (result el) err) els)))"
proof (cases "ctx_Err (ctx e)")
  case (Some cerr)
  then have eq: "ProcessQueueOnce r callback e w0 = deferred [e] (Some panicError) (send (result e) (Some cerr) w0)"
    by (simp add: ProcessQueueOnce_def)
  show ?thesis unfolding eq by (rule shape_stopped[OF quietly_send])
next
  case None
  obtain drained w1 where d: "drainQueue w0 = (drained, w1)" by (cases "drainQueue w0")
  obtain elements aerr changes w3 where
    a: "applyElements r True (e # drained) 0 emptyResult (w1\<lparr>pushSuccess := True\<rparr>) = (elements, aerr, changes, w3)"
    by (cases "applyElements r True (e # drained) 0 emptyResult (w1\<lparr>pushSuccess := True\<rparr>)")
  have q3: "quietly w0 w3"
    using quietly_trans[OF quietly_drainQueue[OF d]
            quietly_trans[OF quietly_same_trace[of "w1\<lparr>pushSuccess := True\<rparr>" w1] quietly_applyElements[OF a]]]
    by simp
  show ?thesis
  proof (cases "aerr \<noteq> None \<or> elements = []")
    case True
    then have "\<exists>err. ProcessQueueOnce r callback e w0 = deferred elements err w3"
      using None d a by (cases aerr) (auto simp: ProcessQueueOnce_def)
    then obtain err where eq: "ProcessQueueOnce r callback e w0 = deferred elements err w3" by blast
    show ?thesis unfolding eq by (rule shape_stopped[OF q3])
  next
    case False
    then have ok: "aerr = None" "elements \<noteq> []" by simp_all
    obtain perr w4 where p: "Push r callback w3 = (perr, w4)" by (cases "Push r callback w3")
    have q4: "pushing w0 w4" using quietly_pushing[OF q3 pushing_Push[OF p]] .
    show ?thesis
    proof (cases "perr = Some (GitError ErrorCodeNonFastForward)")
      case False
      then have "\<exists>err. ProcessQueueOnce r callback e w0 = deferred elements err (postPush r changes w4)"
        using None d a ok p by (cases perr) (auto simp: ProcessQueueOnce_def)
      then obtain err where eq: "ProcessQueueOnce r callback e w0 = deferred elements err (postPush r changes w4)"
        by blast
      show ?thesis unfolding eq by (rule shape_pushed[OF q4])
    next
      case nff: True
      obtain ferr w5 where f: "FetchAndReset r w4 = (ferr, w5)" by (cases "FetchAndReset r w4")
      have q5: "pushing w0 w5" using pushing_quietly[OF q4 quietly_FetchAndReset[OF f]] .
      show ?thesis
      proof (cases ferr)
        case (Some fe)
        then have eq: "ProcessQueueOnce r callback e w0 = deferred elements (Some fe) w5"
          using None d a ok p nff f by (simp add: ProcessQueueOnce_def)
        show ?thesis unfolding eq by (rule shape_stopped[OF pushing_imp_quietly[OF q5]])
      next
        case fetched: None
        obtain elements2 err2 changes2 w6 where
          a2: "applyElements r False elements 0 emptyResult w5 = (elements2, err2, changes2, w6)"
          by (cases "applyElements r False elements 0 emptyResult w5")
        have q6: "pushing w0 w6" using pushing_quietly[OF q5 quietly_applyElements[OF a2]] .
        show ?thesis
        proof (cases "err2 \<noteq> None \<or> elements2 = []")
          case True
          then have eq: "ProcessQueueOnce r callback e w0 = deferred elements2 err2 w6"
            using None d a ok p nff f fetched a2 by (auto simp: ProcessQueueOnce_def)
          show ?thesis unfolding eq by (rule shape_stopped[OF pushing_imp_quietly[OF q6]])
        next
          case False
          obtain pushErr w7 where p2: "Push r callback w6 = (pushErr, w7)" by (cases "Push r callback w6")
          have q7: "pushing w0 w7" using quietly_pushing[OF pushing_imp_quietly[OF q6] pushing_Push[OF p2]] .
          have eq: "ProcessQueueOnce r callback e w0 =
                      deferred elements2 (map_option InternalError pushErr) (postPush r changes w7)"
            using None d a ok p nff f fetched a2 False p2 by (auto simp: ProcessQueueOnce_def)
          show ?thesis unfolding eq by (rule shape_pushed[OF q7])
        qed
      qed
    qed
  qed
qed

lemma quietly_deferred: "quietly w (deferred els err w)"
proof -
  have "list_all quiet (map (\<lambda>el. EvSend (result el) err) els)"
    by (induction els) (simp_all add: quiet_def)
  then show ?thesis by (simp add: quietly_def trace_deferred)
qed

lemma quietly_before_push:
  assumes "drainQueue w0 = (drained, w1)"
    "applyElements r True (e # drained) 0 emptyResult (w1\<lparr>pushSuccess := True\<rparr>) = (elements, aerr, changes, w3)"
  shows "quietly w0 w3"
  using quietly_trans[OF quietly_drainQueue[OF assms(1)]
          quietly_trans[OF quietly_same_trace[of "w1\<lparr>pushSuccess := True\<rparr>" w1] quietly_applyElements[OF assms(2)]]]
  by simp

lemma ProcessQueueOnce_after_push:
  assumes "ctx_Err (ctx e) = None" "drainQueue w0 = (drained, w1)"
    "applyElements r True (e # drained) 0 emptyResult (w1\<lparr>pushSuccess := True\<rparr>) = (elements, None, changes, w3)"
    "elements \<noteq> []" "Push r callback w3 = (perr, w4)" "perr \<noteq> Some (GitError ErrorCodeNonFastForward)"
  shows "\<exists>err. ProcessQueueOnce r callback e w0 = deferred elements err (postPush r changes w4) \<and>
               trace (ProcessQueueOnce r callback e w0) =
                 trace w4 @ postPushEvents r changes @ map (\<lambda>el. EvSend (result el) err) elements \<and>
               (perr \<noteq> None \<longrightarrow> err \<noteq> None) \<and> (perr = None \<and> pushSuccess w4 \<longrightarrow> err = None) \<and>
               (perr = None \<and> \<not> pushSuccess w4 \<longrightarrow>
                  err = Some (OtherError ''failed to push - this indicates that branch protection is enabled'')) \<and>
               (\<forall>x. perr = Some x \<and> (errors_Is x DeadlineExceeded \<or> errors_Is x Canceled) \<longrightarrow>
                  err = Some (GrpcCanceledError x)) \<and>
               (\<forall>x. perr = Some x \<and> \<not> (errors_Is x DeadlineExceeded \<or> errors_Is x Canceled) \<longrightarrow>
                  err = Some (GrpcPublicError ''could not push to manifest repository - this indicates that the ssh key does not have write access''))"
  using assms by (cases perr) (auto simp: ProcessQueueOnce_def trace_deferred trace_postPush)

lemma ProcessQueueOnce_fetch_failed_events:
  assumes "ctx_Err (ctx e) = None" "drainQueue w0 = (drained, w1)"
    "applyElements r True (e # drained) 0 emptyResult (w1\<lparr>pushSuccess := True\<rparr>) = (elements, None, changes, w3)"
    "elements \<noteq> []" "Push r callback w3 = (Some (GitError ErrorCodeNonFastForward), w4)"
    "FetchAndReset r w4 = (Some ferr, w5)"
  shows "ProcessQueueOnce r callback e w0 = deferred elements (Some ferr) w5 \<and>
         trace (ProcessQueueOnce r callback e w0) =
           trace w4 @ EvFetch # map (\<lambda>el. EvSend (result el) (Some ferr)) elements \<and>
         (\<exists>evs. trace (ProcessQueueOnce r callback e w0) = trace w0 @ evs \<and> list_all quiet evs)"
proof -
  have eq: "ProcessQueueOnce r callback e w0 = deferred elements (Some ferr) w5"
    using assms by (rule ProcessQueueOnce_fetch_failed)
  have t5: "trace w5 = trace w4 @ [EvFetch]"
    using trace_FetchAndReset[of r w4] assms(6) by simp
  have "quietly w0 w4"
    using quietly_trans[OF quietly_before_push[OF assms(2,3)] pushing_imp_quietly[OF pushing_Push[OF assms(5)]]] .
  from quietly_trans[OF quietly_trans[OF this quietly_FetchAndReset[OF assms(6)]]
         quietly_deferred[of w5 elements "Some ferr"]]
  have "quietly w0 (ProcessQueueOnce r callback e w0)" by (simp add: eq)
  then have "\<exists>evs. trace (ProcessQueueOnce r callback e w0) = trace w0 @ evs \<and> list_all quiet evs"
    unfolding quietly_def .
  moreover have "trace (ProcessQueueOnce r callback e w0) =
           trace w4 @ EvFetch # map (\<lambda>el. EvSend (result el) (Some ferr)) elements"
    by (simp add: eq trace_deferred t5)
  ultimately show ?thesis using eq by blast
qed

lemma ProcessQueueOnce_nothing_left:
  assumes "ctx_Err (ctx e) = None" "drainQueue w0 = (drained, w1)"
    "applyElements r True (e # drained) 0 emptyResult (w1\<lparr>pushSuccess := True\<rparr>) = (elements, None, changes, w3)"
    "elements \<noteq> []" "Push r callback w3 = (Some (GitError ErrorCodeNonFastForward), w4)"
    "FetchAndReset r w4 = (None, w5)"
    "applyElements r False elements 0 emptyResult w5 = ([], err2, changes2, w6)"
  shows "ProcessQueueOnce r callback e w0 = w6 \<and>
         (\<exists>evs. trace (ProcessQueueOnce r callback e w0) = trace w0 @ evs \<and> list_all quiet evs)"
proof -
  have eq: "ProcessQueueOnce r callback e w0 = w6"
    using assms by (simp add: ProcessQueueOnce_def deferred_def)
  have "quietly w0 w4"
    using quietly_trans[OF quietly_before_push[OF assms(2,3)] pushing_imp_quietly[OF pushing_Push[OF assms(5)]]] .
  from quietly_trans[OF quietly_trans[OF this quietly_FetchAndReset[OF assms(6)]] quietly_applyElements[OF assms(7)]]
  have "quietly w0 (ProcessQueueOnce r callback e w0)" by (simp add: eq)
  then have "\<exists>evs. trace (ProcessQueueOnce r callback e w0) = trace w0 @ evs \<and> list_all quiet evs"
    unfolding quietly_def .
  with eq show ?thesis by blast
qed

text \<open>
  C1, as stated, fails: every attempt of the push fails (the key has no write access),
  and the writer still dispatches the webhook and signals the notifier before it reports
  the error to the element.
\<close>

theorem push_failure_still_notifies:
  "trace (ProcessQueueOnce demoRepo defaultPushUpdate el1 world0) =
     [EvSpan ''Apply'',
      EvSpan ''Push'', EvPushAction (Some (GitError ErrorCodeOther)),
      EvSpan ''Push'', EvPushAction (Some (GitError ErrorCodeOther)),
      EvSpan ''PostPush'',
      EvWebhook \<lparr>ChangedApps = [\<lparr>App = ''app1'', Env = ''env1''\<rparr>], DeletedRootApps = [],
                 Commits = Some \<lparr>Previous = None, Current = 0\<rparr>\<rparr>
                \<lparr>attempts = [1], sleeps = [], success = True\<rparr>,
      EvNotify,
      EvSend 1 (Some (GrpcPublicError ''could not push to manifest repository - this indicates that the ssh key does not have write access''))]"
  by (simp add: run_defs el_defs demo_defs step_defs)

text \<open>
  C1, amended: in every iteration of the writer the webhook dispatch and the signal of
  the notifier come only in the statements after the push: after at least one push
  attempt of that iteration, at most once, the webhook first, and followed by nothing but
  the results sent to the elements; an iteration without a push attempt dispatches and
  notifies nothing. They do not wait for a push that succeeded. When the first push has
  returned with success or with any failure but non-fast-forward, these statements run
  and every element gets the result afterwards: nil after a push whose reference update
  was accepted, the branch-protection error after a push whose update was declined, the
  cancelled error after a cancellation or a deadline, the public error after any other
  push error. When the first push has returned non-fast-forward, they run only after the
  second push of the recovery, whatever its outcome, and the elements get nil or the
  internal error; when the fetch fails, or the second pass leaves no element, there is
  no second push and nothing is dispatched or notified in the iteration.
\<close>

theorem webhook_and_notify_follow_push:
  fixes r :: "'fs repository"
  shows "(\<exists>pre post. trace (ProcessQueueOnce r callback e w0) = trace w0 @ pre @ post \<and> list_all quiet pre \<and>
      (post = [] \<or> ((\<exists>x. EvPushAction x \<in> set pre) \<and>
         (\<exists>changes (els :: 'fs element list) err.
             post = postPushEvents r changes @ map (\<lambda>el. EvSend (result el) err) els)))) \<and>
   (\<forall>drained w1 elements changes w3 perr w4.
      ctx_Err (ctx e) = None \<and> drainQueue w0 = (drained, w1) \<and>
      applyElements r True (e # drained) 0 emptyResult (w1\<lparr>pushSuccess := True\<rparr>) = (elements, None, changes, w3) \<and>
      elements \<noteq> [] \<and> Push r callback w3 = (perr, w4) \<and> perr \<noteq> Some (GitError ErrorCodeNonFastForward) \<longrightarrow>
      (\<exists>err. ProcessQueueOnce r callback e w0 = deferred elements err (postPush r changes w4) \<and>
             trace (ProcessQueueOnce r callback e w0) =
               trace w4 @ postPushEvents r changes @ map (\<lambda>el. EvSend (result el) err) elements \<and>
             (perr \<noteq> None \<longrightarrow> err \<noteq> None) \<and> (perr = None \<and> pushSuccess w4 \<longrightarrow> err = None) \<and>
             (perr = None \<and> \<not> pushSuccess w4 \<longrightarrow>
                err = Some (OtherError ''failed to push - this indicates that branch protection is enabled'')) \<and>
             (\<forall>x. perr = Some x \<and> (errors_Is x DeadlineExceeded \<or> errors_Is x Canceled) \<longrightarrow>
                err = Some (GrpcCanceledError x)) \<and>
             (\<forall>x. perr = Some x \<and> \<not> (errors_Is x DeadlineExceeded \<or> errors_Is x Canceled) \<longrightarrow>
                err = Some (GrpcPublicError ''could not push to manifest repository - this indicates that the ssh key does not have write access'')))) \<and>
   (\<forall>drained w1 elements changes w3 w4 w5 elements2 err2 changes2 w6 pushErr w7.
      ctx_Err (ctx e) = None \<and> drainQueue w0 = (drained, w1) \<and>
      applyElements r True (e # drained) 0 emptyResult (w1\<lparr>pushSuccess := True\<rparr>) = (elements, None, changes, w3) \<and>
      elements \<noteq> [] \<and> Push r callback w3 = (Some (GitError ErrorCodeNonFastForward), w4) \<and>
      FetchAndReset r w4 = (None, w5) \<and>
      applyElements r False elements 0 emptyResult w5 = (elements2, err2, changes2, w6) \<and>
      elements2 \<noteq> [] \<and> Push r callback w6 = (pushErr, w7) \<longrightarrow>
      ProcessQueueOnce r callback e w0 =
        deferred elements2 (map_option InternalError pushErr) (postPush r changes w7) \<and>
      trace (ProcessQueueOnce r callback e w0) =
        trace w7 @ postPushEvents r changes @
        map (\<lambda>el. EvSend (result el) (map_option InternalError pushErr)) elements2) \<and>
   (\<forall>drained w1 elements changes w3 w4 ferr w5.
      ctx_Err (ctx e) = None \<and> drainQueue w0 = (drained, w1) \<and>
      applyElements r True (e # drained) 0 emptyResult (w1\<lparr>pushSuccess := True\<rparr>) = (elements, None, changes, w3) \<and>
      elements \<noteq> [] \<and> Push r callback w3 = (Some (GitError ErrorCodeNonFastForward), w4) \<and>
      FetchAndReset r w4 = (Some ferr, w5) \<longrightarrow>
      ProcessQueueOnce r callback e w0 = deferred elements (Some ferr) w5 \<and>
      trace (ProcessQueueOnce r callback e w0) =
        trace w4 @ EvFetch # map (\<lambda>el. EvSend (result el) (Some ferr)) elements \<and>
      (\<exists>evs. trace (ProcessQueueOnce r callback e w0) = trace w0 @ evs \<and> list_all quiet evs)) \<and>
   (\<forall>drained w1 elements changes w3 w4 w5 err2 changes2 w6.
      ctx_Err (ctx e) = None \<and> drainQueue w0 = (drained, w1) \<and>
      applyElements r True (e # drained) 0 emptyResult (w1\<lparr>pushSuccess := True\<rparr>) = (elements, None, changes, w3) \<and>
      elements \<noteq> [] \<and> Push r callback w3 = (Some (GitError ErrorCodeNonFastForward), w4) \<and>
      FetchAndReset r w4 = (None, w5) \<and>
      applyElements r False elements 0 emptyResult w5 = ([], err2, changes2, w6) \<longrightarrow>
      ProcessQueueOnce r callback e w0 = w6 \<and>
      (\<exists>evs. trace (ProcessQueueOnce r callback e w0) = trace w0 @ evs \<and> list_all quiet evs))"
proof -
  have second: "ProcessQueueOnce r callback e w0 =
        deferred elements2 (map_option InternalError pushErr) (postPush r changes w7) \<and>
      trace (ProcessQueueOnce r callback e w0) =
        trace w7 @ postPushEvents r changes @
        map (\<lambda>el. EvSend (result el) (map_option InternalError pushErr)) elements2"
    if "ctx_Err (ctx e) = None" "drainQueue w0 = (drained, w1)"
      "applyElements r True (e # drained) 0 emptyResult (w1\<lparr>pushSuccess := True\<rparr>) = (elements, None, changes, w3)"
      "elements \<noteq> []" "Push r callback w3 = (Some (GitError ErrorCodeNonFastForward), w4)"
      "FetchAndReset r w4 = (None, w5)"
      "applyElements r False elements 0 emptyResult w5 = (elements2, err2, changes2, w6)"
      "elements2 \<noteq> []" "Push r callback w6 = (pushErr, w7)"
    for drained w1 elements changes w3 w4 w5 elements2 err2 changes2 w6 pushErr w7
  proof -
    have eq: "ProcessQueueOnce r callback e w0 =
        deferred elements2 (map_option InternalError pushErr) (postPush r changes w7)"
      by (rule ProcessQueueOnce_after_second_push[OF that])
    then show ?thesis by (simp add: trace_deferred trace_postPush)
  qed
  show ?thesis
    apply (intro conjI)
        apply (rule ProcessQueueOnce_shape)
       apply (intro allI impI, elim conjE, (rule ProcessQueueOnce_after_push; assumption))
      apply (intro allI impI, elim conjE, (rule second; assumption))
     apply (intro allI impI, elim conjE, (rule ProcessQueueOnce_fetch_failed_events; assumption))
    apply (intro allI impI, elim conjE, (rule ProcessQueueOnce_nothing_left; assumption))
    done
qed

theorem webhook_and_notify_follow_push_witness:
  "trace (ProcessQueueOnce protectedRepo defaultPushUpdate el1 world0) =
     [EvSpan ''Apply'',
      EvSpan ''Push'', EvPushAction None,
      EvSpan ''PostPush'',
      EvWebhook \<lparr>ChangedApps = [\<lparr>App = ''app1'', Env = ''env1''\<rparr>], DeletedRootApps = [],
                 Commits = Some \<lparr>Previous = None, Current = 0\<rparr>\<rparr>
                \<lparr>attempts = [1], sleeps = [], success = True\<rparr>,
      EvNotify,
      EvSend 1 (Some (OtherError ''failed to push - this indicates that branch protection is enabled''))] \<and>
   trace (ProcessQueueOnce strandedRepo defaultPushUpdate el1 world0) =
     [EvSpan ''Apply'',
      EvSpan ''Push'', EvPushAction (Some (GitError ErrorCodeNonFastForward)),
      EvFetch,
      EvSend 1 (Some (InternalError (OtherError ''connection refused'')))]"
proof -
  define ch0 where "ch0 = \<lparr>ChangedApps = [\<lparr>App = ''app1'', Env = ''env1''\<rparr>], DeletedRootApps = [],
                           Commits = Some \<lparr>Previous = None, Current = 0\<rparr>\<rparr>"
  define w3 where "w3 = snd (snd (snd (applyElements protectedRepo True [el1] 0 emptyResult (world0\<lparr>pushSuccess := True\<rparr>))))"
  define w4 where "w4 = snd (Push protectedRepo defaultPushUpdate w3)"
  define v3 where "v3 = snd (snd (snd (applyElements strandedRepo True [el1] 0 emptyResult (world0\<lparr>pushSuccess := True\<rparr>))))"
  define v4 where "v4 = snd (Push strandedRepo defaultPushUpdate v3)"
  define v5 where "v5 = snd (FetchAndReset strandedRepo v4)"
  note defs = run_defs el_defs demo_defs step_defs strandedRepo_def
  have live: "ctx_Err (ctx el1) = None" by (simp add: defs)
  have drain: "drainQueue world0 = ([], world0)" by (simp add: defs)
  have some: "[el1] \<noteq> []" by simp
  have apply1: "applyElements protectedRepo True (el1 # []) 0 emptyResult (world0\<lparr>pushSuccess := True\<rparr>)
                  = ([el1], None, Some ch0, w3)"
    by (simp add: w3_def ch0_def defs)
  have push1: "Push protectedRepo defaultPushUpdate w3 = (None, w4)"
    by (simp add: w4_def w3_def defs)
  have other: "None \<noteq> Some (GitError ErrorCodeNonFastForward)" by simp
  have declined: "\<not> pushSuccess w4" by (simp add: w4_def w3_def defs)
  have tw4: "trace w4 = [EvSpan ''Apply'', EvSpan ''Push'', EvPushAction None]"
    by (simp add: w4_def w3_def defs)
  have events: "postPushEvents protectedRepo (Some ch0) =
      [EvSpan ''PostPush'', EvWebhook ch0 \<lparr>attempts = [1], sleeps = [], success = True\<rparr>, EvNotify]"
    by (simp add: postPushEvents_def defs)
  note after = webhook_and_notify_follow_push[of protectedRepo defaultPushUpdate el1 world0,
      THEN conjunct2, THEN conjunct1, rule_format, of "[]" world0 "[el1]" "Some ch0" w3 None w4]
  from after live drain apply1 some push1 other
  obtain err where
    t: "trace (ProcessQueueOnce protectedRepo defaultPushUpdate el1 world0) =
          trace w4 @ postPushEvents protectedRepo (Some ch0) @ map (\<lambda>el. EvSend (result el) err) [el1]"
    and report: "None = (None :: error option) \<and> \<not> pushSuccess w4 \<longrightarrow>
          err = Some (OtherError ''failed to push - this indicates that branch protection is enabled'')"
    by blast
  from report declined
  have err: "err = Some (OtherError ''failed to push - this indicates that branch protection is enabled'')"
    by simp
  have protected: "trace (ProcessQueueOnce protectedRepo defaultPushUpdate el1 world0) =
     [EvSpan ''Apply'',
      EvSpan ''Push'', EvPushAction None,
      EvSpan ''PostPush'',
      EvWebhook \<lparr>ChangedApps = [\<lparr>App = ''app1'', Env = ''env1''\<rparr>], DeletedRootApps = [],
                 Commits = Some \<lparr>Previous = None, Current = 0\<rparr>\<rparr>
                \<lparr>attempts = [1], sleeps = [], success = True\<rparr>,
      EvNotify,
      EvSend 1 (Some (OtherError ''failed to push - this indicates that branch protection is enabled''))]"
    unfolding t tw4 events err by (simp add: ch0_def el1_def)
  have apply2: "applyElements strandedRepo True (el1 # []) 0 emptyResult (world0\<lparr>pushSuccess := True\<rparr>)
                  = ([el1], None, Some ch0, v3)"
    by (simp add: v3_def ch0_def defs)
  have push2: "Push strandedRepo defaultPushUpdate v3 = (Some (GitError ErrorCodeNonFastForward), v4)"
    by (simp add: v4_def v3_def defs)
  have fetch2: "FetchAndReset strandedRepo v4 = (Some (InternalError (OtherError ''connection refused'')), v5)"
    by (simp add: v5_def FetchAndReset_def strandedRepo_def demo_defs)
  have tv4: "trace v4 = [EvSpan ''Apply'', EvSpan ''Push'', EvPushAction (Some (GitError ErrorCodeNonFastForward))]"
    by (simp add: v4_def v3_def defs)
  note failed = webhook_and_notify_follow_push[of strandedRepo defaultPushUpdate el1 world0,
      THEN conjunct2, THEN conjunct2, THEN conjunct2, THEN conjunct1, rule_format,
      of "[]" world0 "[el1]" "Some ch0" v3 v4 "InternalError (OtherError ''connection refused'')" v5]
  from failed live drain apply2 some push2 fetch2
  have "trace (ProcessQueueOnce strandedRepo defaultPushUpdate el1 world0) =
          trace v4 @ EvFetch # map (\<lambda>el. EvSend (result el) (Some (InternalError (OtherError ''connection refused'')))) [el1]"
    by blast
  then have stranded: "trace (ProcessQueueOnce strandedRepo defaultPushUpdate el1 world0) =
     [EvSpan ''Apply'',
      EvSpan ''Push'', EvPushAction (Some (GitError ErrorCodeNonFastForward)),
      EvFetch,
      EvSend 1 (Some (InternalError (OtherError ''connection refused'')))]"
    unfolding tv4 by (simp add: el1_def)
  from protected stranded show ?thesis by simp
qed

section \<open>An element that is cancelled before the writer picks it up\<close>

text \<open>
  The drain: the elements whose context is done get their context error, one send each,
  and are dropped; the others are kept, in their order, and nothing is sent to them.
\<close>

lemma drainLoop_spec:
  "drainLoop q els tr =
     (els @ filter (\<lambda>f. ctx_Err (ctx f) = None) q,
      tr @ map (\<lambda>f. EvSend (result f) (ctx_Err (ctx f))) (filter (\<lambda>f. ctx_Err (ctx f) \<noteq> None) q))"
  by (induction q arbitrary: els tr) (auto split: option.splits)

text \<open>
  C7: an element whose context is already done when the writer picks it up gets its
  context error on its result channel, in one send and no other, and none of its
  transformers runs. The drain does so. The first element of an iteration does not: the
  writer sends the context error and returns, and the deferred function then sends the
  error variable, still the panic error, on the same channel.
\<close>

theorem cancelled_first_element_two_sends:
  "trace (ProcessQueueOnce demoRepo defaultPushUpdate cancelledEl world0)
     = [EvSend 1 (Some Canceled), EvSend 1 (Some panicError)]"
  by (simp add: run_defs el_defs demo_defs)

theorem cancelled_first_element_two_sends_witness:
  "length (filter isSend (trace (ProcessQueueOnce demoRepo defaultPushUpdate cancelledEl world0))) = 2"
  using cancelled_first_element_two_sends by (simp add: isSend_def)

lemma cancelled_drained_element_one_send:
  "drainQueue (world0\<lparr>queue := [cancelledEl]\<rparr>) = ([], world0\<lparr>trace := [EvSend 1 (Some Canceled)]\<rparr>)"
  by (simp add: run_defs el_defs demo_defs)

end
